theory Spec2Isabelle
  imports Main "HOL-Library.Sublist" "HOL-Library.Char_ord" "HOL-Library.List_Lexorder"
    "HOL-Library.Product_Lexorder" "HOL-Library.Option_ord"
begin

section \<open>Cells, grids and Python's string primitives\<close>

text \<open>
  A worksheet is read with \<^verbatim>\<open>pd.read_excel(..., header=None)\<close>. A cell is absent
  (\<^verbatim>\<open>NaN\<close>), a number, a boolean or text. Characters are code points below 256; on
  these \<^verbatim>\<open>str.strip\<close>, \<^verbatim>\<open>str.lower\<close> and the regular expression of \<^verbatim>\<open>norm\<close>
  are modelled exactly. Numbers carry an integer.
\<close>

datatype cell = Absent | Num int | Bool bool | Str string

type_synonym grid = "cell list list"

definition isna :: "cell \<Rightarrow> bool" where
  "isna x = (x = Absent)"

definition is_str :: "cell \<Rightarrow> bool" where
  "is_str x = (case x of Str s \<Rightarrow> True | _ \<Rightarrow> False)"

text \<open>The white space of \<^verbatim>\<open>str.strip()\<close> and \<^verbatim>\<open>str.split()\<close> below code point 256.\<close>

definition isspace :: "char \<Rightarrow> bool" where
  "isspace c = ((of_char c :: nat) \<in> set [9, 10, 11, 12, 13, 28, 29, 30, 31, 32, 133, 160])"

definition lstrip :: "string \<Rightarrow> string" where
  "lstrip s = dropWhile isspace s"

definition rstrip :: "string \<Rightarrow> string" where
  "rstrip s = rev (dropWhile isspace (rev s))"

definition strip :: "string \<Rightarrow> string" where
  "strip s = rstrip (lstrip s)"

text \<open>\<^verbatim>\<open>s.rstrip('.')\<close>\<close>

definition rstrip_dot :: "string \<Rightarrow> string" where
  "rstrip_dot s = rev (dropWhile (\<lambda>c. c = CHR ''.'') (rev s))"

text \<open>\<^verbatim>\<open>s.split()\<close>: the maximal runs of characters that are not white space.\<close>

function split_ws :: "string \<Rightarrow> string list" where
  "split_ws s =
     (let s' = dropWhile isspace s
      in if s' = [] then []
         else takeWhile (\<lambda>c. \<not> isspace c) s' # split_ws (dropWhile (\<lambda>c. \<not> isspace c) s'))"
  by pat_completeness auto
termination
proof (relation "measure length")
  show "wf (measure length)" by simp
next
  fix s s' :: string
  assume a: "s' = dropWhile isspace s" "s' \<noteq> []"
  have "length (dropWhile (\<lambda>c. \<not> isspace c) s') < length s'"
  proof (cases s')
    case Nil
    with a show ?thesis by simp
  next
    case (Cons c cs)
    have "\<not> isspace (hd s')"
      using a hd_dropWhile[of isspace s] by simp
    then have "\<not> isspace c"
      using Cons by simp
    then have "length (dropWhile (\<lambda>c. \<not> isspace c) s') \<le> length cs"
      using Cons by (simp add: length_dropWhile_le)
    then show ?thesis using Cons by simp
  qed
  moreover have "length s' \<le> length s"
    using a by (simp add: length_dropWhile_le)
  ultimately show "(dropWhile (\<lambda>c. \<not> isspace c) s', s) \<in> measure length"
    by simp
qed

definition startswith :: "string \<Rightarrow> string \<Rightarrow> bool" where
  "startswith t p = (take (length p) t = p)"

definition endswith_dot :: "string \<Rightarrow> bool" where
  "endswith_dot t = (t \<noteq> [] \<and> last t = CHR ''.'')"

text \<open>\<^verbatim>\<open>p in t\<close> for strings: \<open>p\<close> occurs in \<open>t\<close> as a contiguous run.\<close>

fun contains :: "string \<Rightarrow> string \<Rightarrow> bool" where
  "contains p [] = (p = [])"
| "contains p (c # cs) = (startswith (c # cs) p \<or> contains p cs)"

text \<open>\<^verbatim>\<open>str.lower()\<close> on code points below 256.\<close>

definition lower_char :: "char \<Rightarrow> char" where
  "lower_char c =
     (let n = (of_char c :: nat)
      in if (65 \<le> n \<and> n \<le> 90) \<or> (192 \<le> n \<and> n \<le> 222 \<and> n \<noteq> 215)
         then char_of (n + 32) else c)"

definition lower :: "string \<Rightarrow> string" where
  "lower s = map lower_char s"

text \<open>The characters the pattern \<^verbatim>\<open>[^a-z0-9 ]+\<close> of \<^verbatim>\<open>norm\<close> leaves in place.\<close>

definition keeps :: "char \<Rightarrow> bool" where
  "keeps c =
     (let n = (of_char c :: nat)
      in (97 \<le> n \<and> n \<le> 122) \<or> (48 \<le> n \<and> n \<le> 57) \<or> n = 32)"

text \<open>\<^verbatim>\<open>str(x)\<close> of a cell value.\<close>

fun digits :: "nat \<Rightarrow> string" where
  "digits n = (if n < 10 then [char_of (48 + n)] else digits (n div 10) @ [char_of (48 + n mod 10)])"

declare digits.simps [simp del]

definition str_int :: "int \<Rightarrow> string" where
  "str_int i = (if i < 0 then CHR ''-'' # digits (nat (- i)) else digits (nat i))"

fun py_str :: "cell \<Rightarrow> string" where
  "py_str Absent = ''nan''"
| "py_str (Num i) = str_int i"
| "py_str (Bool b) = (if b then ''True'' else ''False'')"
| "py_str (Str s) = s"

section \<open>Token classifier and mark detector (debugger program)\<close>

text \<open>\<^verbatim>\<open>norm(s)\<close>, applied to \<^verbatim>\<open>str(s)\<close>.\<close>

definition norm :: "string \<Rightarrow> string" where
  "norm s = filter keeps (lower (strip s))"

definition is_day_token :: "cell \<Rightarrow> bool" where
  "is_day_token x =
     (case x of
        Str s \<Rightarrow>
          list_ex (startswith (norm s))
            [''mon'', ''tue'', ''wed'', ''thu'', ''fri'',
             ''monday'', ''tuesday'', ''wednesday'', ''thursday'', ''friday'']
      | _ \<Rightarrow> False)"

datatype label = LAt | LB | LL | LP

fun label_str :: "label \<Rightarrow> string" where
  "label_str LAt = ''At''"
| "label_str LB = ''B''"
| "label_str LL = ''L''"
| "label_str LP = ''P''"

definition meal_label_from_token :: "cell \<Rightarrow> label option" where
  "meal_label_from_token x =
     (let t = norm (py_str x)
      in if startswith t ''at'' \<or> startswith t ''att'' \<or> contains ''attend'' t then Some LAt
         else if t \<in> set [''b'', ''br'', ''bf'', ''breakfast'', ''am snack'', ''amsnack'']
                 \<or> startswith t ''break'' \<or> startswith t ''brk'' then Some LB
         else if t \<in> set [''l'', ''ln'', ''lunch''] \<or> startswith t ''lun'' then Some LL
         else if t \<in> set [''p'', ''pm'', ''pmsnack'', ''snack pm'', ''snackpm'', ''pm snack'',
                           ''pmmeal'', ''snack'']
                 \<or> (contains ''pm'' t \<and> contains ''snack'' t) then Some LP
         else None)"

fun nonempty_mark :: "cell \<Rightarrow> bool" where
  "nonempty_mark Absent = False"
| "nonempty_mark (Str s) = (length (strip s) > 0)"
| "nonempty_mark x = True"

subsection \<open>The classifier as the specification words it\<close>

text \<open>
  The specification gives a precedence table: Attendance, Breakfast, Lunch, PM-Snack, each
  with an exact set, prefixes and substrings; the first class that matches the normalised
  text wins.
\<close>

definition spec_attendance :: "string \<Rightarrow> bool" where
  "spec_attendance t = (prefix ''at'' t \<or> prefix ''att'' t \<or> sublist ''attend'' t)"

definition spec_breakfast :: "string \<Rightarrow> bool" where
  "spec_breakfast t =
     (t \<in> {''b'', ''br'', ''bf'', ''breakfast'', ''am snack'', ''amsnack''}
      \<or> prefix ''break'' t \<or> prefix ''brk'' t)"

definition spec_lunch :: "string \<Rightarrow> bool" where
  "spec_lunch t = (t \<in> {''l'', ''ln'', ''lunch''} \<or> prefix ''lun'' t)"

definition spec_pmsnack :: "string \<Rightarrow> bool" where
  "spec_pmsnack t =
     (t \<in> {''p'', ''pm'', ''pmsnack'', ''snack pm'', ''snackpm'', ''pm snack'', ''pmmeal'', ''snack''}
      \<or> (sublist ''pm'' t \<and> sublist ''snack'' t))"

definition classify_meal_spec :: "string \<Rightarrow> label option" where
  "classify_meal_spec t =
     map_option fst
       (find (\<lambda>(l, m). m t)
          [(LAt, spec_attendance), (LB, spec_breakfast), (LL, spec_lunch), (LP, spec_pmsnack)])"

section \<open>Grids\<close>

text \<open>
  A grid is the list of its rows. \<^verbatim>\<open>read_excel\<close> gives a rectangular frame, a short row
  padded with \<^verbatim>\<open>NaN\<close>: \<open>ncols\<close> is the longest row and \<open>iat\<close> reads \<open>Absent\<close> in
  the padding. \<open>iat\<close> stands for \<^verbatim>\<open>df.iat[r, c]\<close> only where \<open>r < nrows g\<close> and
  \<open>c < ncols g\<close>; where the source can read outside the frame, the model raises
  \<open>IndexError\<close> by an explicit test.
\<close>

definition nrows :: "grid \<Rightarrow> nat" where
  "nrows g = length g"

definition ncols :: "grid \<Rightarrow> nat" where
  "ncols g = foldr (\<lambda>row m. max (length row) m) g 0"

definition iat :: "grid \<Rightarrow> nat \<Rightarrow> nat \<Rightarrow> cell" where
  "iat g r c = (if r < length g \<and> c < length (g ! r) then g ! r ! c else Absent)"

text \<open>\<^verbatim>\<open>df.iloc[r].tolist()\<close>\<close>

definition iloc_row :: "grid \<Rightarrow> nat \<Rightarrow> cell list" where
  "iloc_row g r = map (iat g r) [0..<ncols g]"

text \<open>\<^verbatim>\<open>df.iloc[a:b, :]\<close>, and the values of one column of a frame.\<close>

definition iloc_rows :: "grid \<Rightarrow> nat \<Rightarrow> nat \<Rightarrow> grid" where
  "iloc_rows g a b = map (iloc_row g) [a..<min b (nrows g)]"

definition col_vals :: "grid \<Rightarrow> nat \<Rightarrow> cell list" where
  "col_vals st c = map (\<lambda>r. iat st r c) [0..<nrows st]"

text \<open>A Python \<^verbatim>\<open>dict\<close> in insertion order: a new key goes last, an old key keeps its place.\<close>

fun dict_set :: "'k \<Rightarrow> 'v \<Rightarrow> ('k \<times> 'v) list \<Rightarrow> ('k \<times> 'v) list" where
  "dict_set k v [] = [(k, v)]"
| "dict_set k v ((k', v') # kvs) =
     (if k' = k then (k, v) # kvs else (k', v') # dict_set k v kvs)"

text \<open>
  Dates. \<^verbatim>\<open>pd.to_datetime\<close> is a parameter of the model: a function from a value to a
  date (year, month, day), \<open>None\<close> where pandas raises or gives \<^verbatim>\<open>NaT\<close>. Dates compare
  as triples.
\<close>

type_synonym date = "nat \<times> nat \<times> nat"

definition min_date :: "date list \<Rightarrow> date option" where
  "min_date ds = (case ds of [] \<Rightarrow> None | d # ds' \<Rightarrow> Some (fold min ds' d))"

definition max_date :: "date list \<Rightarrow> date option" where
  "max_date ds = (case ds of [] \<Rightarrow> None | d # ds' \<Rightarrow> Some (fold max ds' d))"

section \<open>The debugger program: fuzzy \<^verbatim>\<open>parse_sheet\<close> and \<^verbatim>\<open>build_all\<close>\<close>

record day_meal_count =
  rec_day :: string
  rec_meal :: label
  marked_count :: nat
  attendance_marked :: nat

record info =
  day_row :: nat
  label_row :: nat
  start_row :: nat
  end_row :: int
  blocks :: "(string \<times> (nat \<times> label) list) list"
  week_start :: "date option"

text \<open>Step 1: the first row, among the first 80, with at least two day tokens.\<close>

definition day_token_count :: "grid \<Rightarrow> nat \<Rightarrow> nat" where
  "day_token_count g r = length (filter is_day_token (iloc_row g r))"

definition find_day_row :: "grid \<Rightarrow> nat option" where
  "find_day_row g = find (\<lambda>r. 2 \<le> day_token_count g r) [0..<min 80 (nrows g)]"

text \<open>Step 2: the next row, at most five below, with a cell that is not absent.\<close>

definition label_cell_nonempty :: "cell \<Rightarrow> bool" where
  "label_cell_nonempty x = ((case x of Str s \<Rightarrow> strip s \<noteq> [] | _ \<Rightarrow> False) \<or> \<not> isna x)"

definition find_label_row :: "grid \<Rightarrow> nat \<Rightarrow> nat option" where
  "find_label_row g dr =
     find (\<lambda>r. list_ex label_cell_nonempty (iloc_row g r)) [dr + 1..<min (dr + 6) (nrows g)]"

text \<open>
  Step 3: the day-start columns with their short names,
  \<^verbatim>\<open>v.strip().split()[0].rstrip('.')\<close>. A day token has a first word (lemma
  \<open>day_token_has_word\<close>), so the empty case below is never taken.
\<close>

definition day_short :: "string \<Rightarrow> string" where
  "day_short v = (case split_ws (strip v) of w # ws \<Rightarrow> rstrip_dot w | [] \<Rightarrow> [])"

definition day_starts :: "grid \<Rightarrow> nat \<Rightarrow> (nat \<times> string) list" where
  "day_starts g dr =
     List.map_filter
       (\<lambda>c. case iat g dr c of
              Str v \<Rightarrow> if is_day_token (Str v) then Some (c, day_short v) else None
            | _ \<Rightarrow> None)
       [0..<ncols g]"

text \<open>
  Step 4: block \<open>i\<close> runs from its day-start column to the next one, the last block to
  the width of the frame; a block with a label is stored under its day name.
\<close>

fun block_ranges :: "(nat \<times> string) list \<Rightarrow> nat \<Rightarrow> (nat \<times> nat \<times> string) list" where
  "block_ranges [] w = []"
| "block_ranges [(c, d)] w = [(c, w, d)]"
| "block_ranges ((c, d) # (c', d') # rest) w = (c, c', d) # block_ranges ((c', d') # rest) w"

definition block_labels :: "grid \<Rightarrow> nat \<Rightarrow> nat \<Rightarrow> nat \<Rightarrow> (nat \<times> label) list" where
  "block_labels g lr c e =
     List.map_filter
       (\<lambda>cc. let val = iat g lr cc
             in if is_str val \<or> \<not> isna val
                then map_option (\<lambda>ml. (cc, ml)) (meal_label_from_token val)
                else None)
       [c..<e]"

definition store_block ::
  "(nat \<times> label) list \<Rightarrow> string \<Rightarrow> (string \<times> (nat \<times> label) list) list
     \<Rightarrow> (string \<times> (nat \<times> label) list) list" where
  "store_block labels day bs = (if labels \<noteq> [] then dict_set day (sort_key fst labels) bs else bs)"

definition build_blocks ::
  "grid \<Rightarrow> nat \<Rightarrow> (nat \<times> string) list \<Rightarrow> (string \<times> (nat \<times> label) list) list" where
  "build_blocks g lr ds =
     fold (\<lambda>(c, e, day). store_block (block_labels g lr c e) day) (block_ranges ds (ncols g)) []"

text \<open>Step 5: the first row below the label row with a name in column 1.\<close>

definition find_start_row :: "grid \<Rightarrow> nat \<Rightarrow> nat option" where
  "find_start_row g lr =
     find (\<lambda>r. case (if 1 < ncols g then iat g r 1 else Absent) of
                 Str s \<Rightarrow> strip s \<noteq> []
               | _ \<Rightarrow> False)
       [lr + 1..<min (lr + 200) (nrows g)]"

text \<open>
  Step 6: \<^verbatim>\<open>end_row\<close> starts as \<^verbatim>\<open>start_row\<close>; the first row from \<^verbatim>\<open>start_row\<close>
  on with at least 8 absent cells among its first 10 sets it to the row before and ends the
  loop; a value below \<^verbatim>\<open>start_row\<close> is replaced by the bounded fallback.
\<close>

definition mostly_empty :: "grid \<Rightarrow> nat \<Rightarrow> bool" where
  "mostly_empty g r = (8 \<le> length (filter isna (map (iat g r) [0..<min 10 (ncols g)])))"

definition find_end_row :: "nat \<Rightarrow> grid \<Rightarrow> nat \<Rightarrow> int" where
  "find_end_row bound g sr =
     (let end_row = (case find (mostly_empty g) [sr..<nrows g] of
                       Some r \<Rightarrow> int r - 1
                     | None \<Rightarrow> int sr)
      in if end_row < int sr then min (int sr + int bound) (int (nrows g) - 1) else end_row)"

definition students :: "grid \<Rightarrow> nat \<Rightarrow> int \<Rightarrow> grid" where
  "students g sr er = iloc_rows g sr (nat (er + 1))"

text \<open>Step 7: the counts of one block, and of all blocks in the order of the dictionary.\<close>

definition count_marks :: "(cell \<Rightarrow> bool) \<Rightarrow> grid \<Rightarrow> nat \<Rightarrow> nat" where
  "count_marks mark st c = length (filter mark (col_vals st c))"

definition att_cols_of :: "(nat \<times> label) list \<Rightarrow> nat list" where
  "att_cols_of cols = map fst (filter (\<lambda>(col, lab). lab = LAt) cols)"

definition meal_cols_of :: "(nat \<times> label) list \<Rightarrow> nat list" where
  "meal_cols_of cols = map fst (filter (\<lambda>(col, lab). lab \<in> set [LB, LL, LP]) cols)"

definition any_meal_count :: "grid \<Rightarrow> nat list \<Rightarrow> nat" where
  "any_meal_count st meal_cols =
     length (filter (\<lambda>r. list_ex (\<lambda>c. nonempty_mark (iat st r c)) meal_cols) [0..<nrows st])"

definition att_present_of :: "bool \<Rightarrow> grid \<Rightarrow> (nat \<times> label) list \<Rightarrow> nat" where
  "att_present_of assume_attendance_if_any_meal st cols =
     (let att_present = (case att_cols_of cols of
                           [] \<Rightarrow> 0
                         | a # as \<Rightarrow> count_marks nonempty_mark st a)
      in if att_present = 0 \<and> assume_attendance_if_any_meal
         then (if meal_cols_of cols \<noteq> [] then any_meal_count st (meal_cols_of cols)
               else att_present)
         else att_present)"

definition meal_rows ::
  "(cell \<Rightarrow> bool) \<Rightarrow> grid \<Rightarrow> string \<Rightarrow> nat \<Rightarrow> (nat \<times> label) list \<Rightarrow> day_meal_count list" where
  "meal_rows mark st day att cols =
     map (\<lambda>(col_idx, lab).
            \<lparr>rec_day = day, rec_meal = lab, marked_count = count_marks mark st col_idx,
             attendance_marked = att\<rparr>)
       (filter (\<lambda>(col_idx, lab). lab \<in> set [LB, LL, LP]) cols)"

definition block_rows :: "bool \<Rightarrow> grid \<Rightarrow> string \<Rightarrow> (nat \<times> label) list \<Rightarrow> day_meal_count list" where
  "block_rows assume_attendance_if_any_meal st day cols =
     meal_rows nonempty_mark st day (att_present_of assume_attendance_if_any_meal st cols) cols"

definition count_rows ::
  "bool \<Rightarrow> grid \<Rightarrow> (string \<times> (nat \<times> label) list) list \<Rightarrow> day_meal_count list" where
  "count_rows assume_attendance_if_any_meal st bs =
     concat (map (\<lambda>(day, cols). block_rows assume_attendance_if_any_meal st day cols) bs)"

text \<open>The week start: the least date among the cells of the day row and the five rows above.\<close>

definition scrape_week_start :: "(cell \<Rightarrow> date option) \<Rightarrow> grid \<Rightarrow> nat \<Rightarrow> date option" where
  "scrape_week_start to_datetime g dr =
     min_date (List.map_filter to_datetime (concat (map (iloc_row g) [dr - 5..<dr + 1])))"

definition parse_sheet_fuzzy ::
  "(cell \<Rightarrow> date option) \<Rightarrow> bool \<Rightarrow> grid \<Rightarrow> string + (day_meal_count list \<times> info)" where
  "parse_sheet_fuzzy to_datetime assume_attendance_if_any_meal g =
     (case find_day_row g of
        None \<Rightarrow> Inl ''No day row found''
      | Some dr \<Rightarrow>
     (case find_label_row g dr of
        None \<Rightarrow> Inl ''No label row found after day row''
      | Some lr \<Rightarrow>
     (if day_starts g dr = [] then Inl ''Could not locate day start columns''
      else let bs = build_blocks g lr (sort (day_starts g dr))
      in if bs = [] then Inl ''Found day row but no meal/attendance labels underneath''
      else
     (case find_start_row g lr of
        None \<Rightarrow> Inl ''No student rows detected''
      | Some sr \<Rightarrow>
          let er = find_end_row 60 g sr;
              st = students g sr er
          in Inr (count_rows assume_attendance_if_any_meal st bs,
                  \<lparr>day_row = dr, label_row = lr, start_row = sr, end_row = er, blocks = bs,
                   week_start = scrape_week_start to_datetime g dr\<rparr>)))))"

text \<open>
  \<^verbatim>\<open>build_all\<close>: one debug entry per sheet, the records of the sheets that parse.
\<close>

datatype detail = Error_detail string | Ok_detail info

record summary_record =
  sr_sheet :: string
  sr_day :: string
  sr_meal :: label
  sr_marked_count :: nat
  sr_attendance_marked :: nat

fun build_all_loop ::
  "(cell \<Rightarrow> date option) \<Rightarrow> bool \<Rightarrow> (string \<times> grid) list
     \<Rightarrow> summary_record list \<times> (string \<times> detail) list
     \<Rightarrow> summary_record list \<times> (string \<times> detail) list" where
  "build_all_loop to_datetime a [] (all_records, debug) = (all_records, debug)"
| "build_all_loop to_datetime a ((s, df) # rest) (all_records, debug) =
     (case parse_sheet_fuzzy to_datetime a df of
        Inl err \<Rightarrow> build_all_loop to_datetime a rest (all_records, debug @ [(s, Error_detail err)])
      | Inr (counts, nfo) \<Rightarrow>
          build_all_loop to_datetime a rest
            (all_records @
               map (\<lambda>row. \<lparr>sr_sheet = s, sr_day = rec_day row, sr_meal = rec_meal row,
                            sr_marked_count = marked_count row,
                            sr_attendance_marked = attendance_marked row\<rparr>) counts,
             debug @ [(s, Ok_detail nfo)]))"

definition build_all ::
  "(cell \<Rightarrow> date option) \<Rightarrow> bool \<Rightarrow> (string \<times> grid) list
     \<Rightarrow> summary_record list \<times> (string \<times> detail) list" where
  "build_all to_datetime a sheets = build_all_loop to_datetime a sheets ([], [])"

section \<open>The monitoring program: strict \<^verbatim>\<open>parse_sheet\<close> and \<^verbatim>\<open>build_report\<close>\<close>

datatype exn = IndexError

text \<open>\<^verbatim>\<open>_safe_str\<close>\<close>

definition safe_str :: "cell \<Rightarrow> string" where
  "safe_str x = (if \<not> isna x then py_str x else [])"

text \<open>
  The header scan reads \<^verbatim>\<open>df.iat[r, c]\<close> for every \<open>r < 30\<close> and
  \<open>c < min(df.shape[1], 100)\<close>: it raises on a frame with a column and fewer than 30
  rows. The facility is the text at row 7, column 3; the class is the group of the last
  match of \<^verbatim>\<open>Class\s*([A-Za-z0-9]+)\<close>, case ignored, in a text that contains
  \<^verbatim>\<open>Class\<close>.
\<close>

definition is_alnum :: "char \<Rightarrow> bool" where
  "is_alnum c =
     (let n = (of_char c :: nat)
      in (48 \<le> n \<and> n \<le> 57) \<or> (65 \<le> n \<and> n \<le> 90) \<or> (97 \<le> n \<and> n \<le> 122))"

definition re_class_at :: "string \<Rightarrow> string option" where
  "re_class_at s =
     (if lower (take 5 s) = ''class''
      then (let grp = takeWhile is_alnum (dropWhile isspace (drop 5 s))
            in if grp \<noteq> [] then Some grp else None)
      else None)"

fun re_search_class :: "string \<Rightarrow> string option" where
  "re_search_class [] = None"
| "re_search_class (c # cs) =
     (case re_class_at (c # cs) of Some grp \<Rightarrow> Some grp | None \<Rightarrow> re_search_class cs)"

definition header_cells :: "grid \<Rightarrow> cell list" where
  "header_cells g = concat (map (\<lambda>r. map (iat g r) [0..<min (ncols g) 100]) [0..<30])"

definition facility_of :: "grid \<Rightarrow> string option" where
  "facility_of g =
     (if 3 < min (ncols g) 100
      then (case iat g 7 3 of Str v \<Rightarrow> Some (strip v) | _ \<Rightarrow> None)
      else None)"

definition class_name_of :: "grid \<Rightarrow> string option" where
  "class_name_of g =
     fold (\<lambda>x class_name.
             case x of
               Str v \<Rightarrow>
                 if contains ''Class'' v
                 then (case re_search_class v of Some m \<Rightarrow> Some m | None \<Rightarrow> class_name)
                 else class_name
             | _ \<Rightarrow> class_name)
       (header_cells g) None"

text \<open>The day row: the first row from row 8, below row 60, with a text that ends in a dot.\<close>

definition dotted :: "cell \<Rightarrow> bool" where
  "dotted x = (case x of Str s \<Rightarrow> endswith_dot (strip s) | _ \<Rightarrow> False)"

definition find_day_row_strict :: "grid \<Rightarrow> nat option" where
  "find_day_row_strict g = find (\<lambda>r. list_ex dotted (iloc_row g r)) [8..<min 60 (nrows g)]"

definition day_starts_strict :: "grid \<Rightarrow> nat \<Rightarrow> (nat \<times> string) list" where
  "day_starts_strict g dr =
     List.map_filter
       (\<lambda>c. case iat g dr c of
              Str day \<Rightarrow> if endswith_dot (strip day) then Some (c, rstrip_dot (strip day)) else None
            | _ \<Rightarrow> None)
       [0..<ncols g]"

definition exact_label :: "cell \<Rightarrow> label option" where
  "exact_label x =
     (case x of
        Str val \<Rightarrow> find (\<lambda>l. label_str l = strip val) [LAt, LB, LL, LP]
      | _ \<Rightarrow> None)"

definition block_labels_strict :: "grid \<Rightarrow> nat \<Rightarrow> nat \<Rightarrow> nat \<Rightarrow> (nat \<times> label) list" where
  "block_labels_strict g lr c e =
     List.map_filter (\<lambda>cc. map_option (\<lambda>l. (cc, l)) (exact_label (iat g lr cc))) [c..<e]"

definition build_blocks_strict ::
  "grid \<Rightarrow> nat \<Rightarrow> (nat \<times> string) list \<Rightarrow> (string \<times> (nat \<times> label) list) list" where
  "build_blocks_strict g lr ds =
     fold (\<lambda>(c, e, dayname). store_block (block_labels_strict g lr c e) dayname)
       (block_ranges ds (ncols g)) []"

text \<open>
  The first student row has a number in column 0 and a name in column 1. What
  \<^verbatim>\<open>isinstance(v0, (int, float))\<close> says of a number depends on the type pandas gives the
  column: a column of integers only is read as \<^verbatim>\<open>int64\<close>, and \<^verbatim>\<open>df.iat\<close> gives a
  \<^verbatim>\<open>numpy.int64\<close>, which is neither; a column of booleans only gives a
  \<^verbatim>\<open>numpy.bool_\<close>, which is neither; a column of integers and absent cells is read as
  \<^verbatim>\<open>float64\<close> and gives a \<^verbatim>\<open>numpy.float64\<close>, a \<^verbatim>\<open>float\<close>; any other column holds
  Python objects, and a Python \<^verbatim>\<open>int\<close> or \<^verbatim>\<open>bool\<close> is an \<^verbatim>\<open>int\<close>.
\<close>

definition is_num :: "cell \<Rightarrow> bool" where
  "is_num x = (case x of Num i \<Rightarrow> True | _ \<Rightarrow> False)"

definition is_bool :: "cell \<Rightarrow> bool" where
  "is_bool x = (case x of Bool b \<Rightarrow> True | _ \<Rightarrow> False)"

definition is_int_or_float :: "grid \<Rightarrow> nat \<Rightarrow> nat \<Rightarrow> bool" where
  "is_int_or_float g r c =
     (case iat g r c of
        Num i \<Rightarrow> \<not> list_all is_num (col_vals g c)
      | Bool b \<Rightarrow> \<not> list_all is_bool (col_vals g c)
      | _ \<Rightarrow> False)"

definition find_start_row_strict :: "grid \<Rightarrow> nat \<Rightarrow> nat option" where
  "find_start_row_strict g lr =
     find (\<lambda>r. (is_int_or_float g r 0 \<and> \<not> isna (iat g r 0))
               \<and> (case iat g r 1 of Str v1 \<Rightarrow> strip v1 \<noteq> [] | _ \<Rightarrow> False))
       [lr + 1..<min (lr + 200) (nrows g)]"

definition string_mark :: "cell \<Rightarrow> bool" where
  "string_mark x = (case x of Str s \<Rightarrow> strip s \<noteq> [] | _ \<Rightarrow> False)"

definition att_marked_of :: "grid \<Rightarrow> (nat \<times> label) list \<Rightarrow> nat" where
  "att_marked_of st cols =
     (case att_cols_of cols of [] \<Rightarrow> 0 | a # as \<Rightarrow> count_marks string_mark st a)"

definition count_rows_strict ::
  "grid \<Rightarrow> (string \<times> (nat \<times> label) list) list \<Rightarrow> day_meal_count list" where
  "count_rows_strict st bs =
     concat (map (\<lambda>(day, cols). meal_rows string_mark st day (att_marked_of st cols) cols) bs)"

text \<open>
  The week dates: under every \<^verbatim>\<open>Date\<close> label of the row above the day row, the first of
  the next two cells that \<^verbatim>\<open>pd.to_datetime\<close> turns into a date.
\<close>

definition week_dates :: "(cell \<Rightarrow> date option) \<Rightarrow> grid \<Rightarrow> nat \<Rightarrow> date list" where
  "week_dates to_datetime g dr =
     List.map_filter
       (\<lambda>c. if strip (safe_str (iat g (dr - 1) c)) = ''Date''
             then (case to_datetime (iat g dr c) of
                     Some dt \<Rightarrow> Some dt
                   | None \<Rightarrow> to_datetime (iat g (dr + 1) c))
             else None)
       [0..<ncols g]"

record parsed =
  p_campus :: string
  p_class :: string
  p_week_start :: "date option"
  p_week_end :: "date option"
  p_counts :: "day_meal_count list"
  p_student_rows :: "nat \<times> int"

definition or_default :: "string option \<Rightarrow> string \<Rightarrow> string" where
  "or_default x d = (case x of None \<Rightarrow> d | Some s \<Rightarrow> if s = [] then d else s)"

text \<open>
  \<open>Inl IndexError\<close>: the call raises; \<open>Inr None\<close>: it returns \<^verbatim>\<open>None\<close>. The label row
  is read at \<open>dr + 1\<close> without a test that the row exists, and columns 0 and 1 are read
  without a test that the frame has two columns.
\<close>

definition parse_sheet_strict :: "(cell \<Rightarrow> date option) \<Rightarrow> grid \<Rightarrow> exn + parsed option" where
  "parse_sheet_strict to_datetime g =
     (if 0 < min (ncols g) 100 \<and> nrows g < 30 then Inl IndexError
      else
     (case find_day_row_strict g of
        None \<Rightarrow> Inr None
      | Some dr \<Rightarrow>
     (let lr = dr + 1
      in if day_starts_strict g dr = [] then Inr None
      else if nrows g \<le> lr then Inl IndexError
      else let bs = build_blocks_strict g lr (sort (day_starts_strict g dr))
      in if bs = [] then Inr None
      else if lr + 1 < min (lr + 200) (nrows g) \<and> ncols g < 2 then Inl IndexError
      else
     (case find_start_row_strict g lr of
        None \<Rightarrow> Inr None
      | Some sr \<Rightarrow>
          let er = find_end_row 80 g sr;
              st = students g sr er;
              wd = week_dates to_datetime g dr
          in Inr (Some \<lparr>p_campus = or_default (facility_of g) ''Unknown Campus'',
                        p_class = or_default (class_name_of g) ''Unknown Class'',
                        p_week_start = min_date wd, p_week_end = max_date wd,
                        p_counts = count_rows_strict st bs,
                        p_student_rows = (sr, er)\<rparr>)))))"

subsection \<open>\<^verbatim>\<open>build_report\<close>: the records\<close>

record report_record =
  r_campus :: string
  r_class :: string
  r_week :: string
  r_day :: string
  r_meal :: label
  r_marked_count :: nat
  r_attendance_marked :: nat
  r_issue :: bool

text \<open>\<^verbatim>\<open>str(date)\<close> and the text of a monthly period.\<close>

definition zfill :: "nat \<Rightarrow> string \<Rightarrow> string" where
  "zfill n s = replicate (n - length s) CHR ''0'' @ s"

fun iso_date :: "date \<Rightarrow> string" where
  "iso_date (y, m, d) = zfill 4 (digits y) @ ''-'' @ zfill 2 (digits m) @ ''-'' @ zfill 2 (digits d)"

definition week_text :: "parsed \<Rightarrow> string" where
  "week_text p =
     (case p_week_start p of
        Some ws \<Rightarrow> iso_date ws @ '' to '' @ (case p_week_end p of Some we \<Rightarrow> iso_date we | None \<Rightarrow> ''None'')
      | None \<Rightarrow> ''Unknown Week'')"

definition sheet_records :: "parsed \<Rightarrow> report_record list" where
  "sheet_records p =
     map (\<lambda>row. \<lparr>r_campus = p_campus p, r_class = p_class p, r_week = week_text p,
                  r_day = rec_day row, r_meal = rec_meal row, r_marked_count = marked_count row,
                  r_attendance_marked = attendance_marked row,
                  r_issue = (marked_count row = 0 \<and> attendance_marked row > 0)\<rparr>)
       (p_counts p)"

fun build_report_loop ::
  "(cell \<Rightarrow> date option) \<Rightarrow> (string \<times> grid) list \<Rightarrow> report_record list
     \<Rightarrow> exn + report_record list" where
  "build_report_loop to_datetime [] all_records = Inr all_records"
| "build_report_loop to_datetime ((s, df) # rest) all_records =
     (case parse_sheet_strict to_datetime df of
        Inl e \<Rightarrow> Inl e
      | Inr None \<Rightarrow> build_report_loop to_datetime rest all_records
      | Inr (Some p) \<Rightarrow>
          if p_counts p = [] then build_report_loop to_datetime rest all_records
          else build_report_loop to_datetime rest (all_records @ sheet_records p))"

subsection \<open>\<^verbatim>\<open>build_report\<close>: the tables\<close>

text \<open>\<^verbatim>\<open>s.split(p)[0]\<close>: the text before the first occurrence of \<open>p\<close>.\<close>

fun before_sub :: "string \<Rightarrow> string \<Rightarrow> string" where
  "before_sub p [] = []"
| "before_sub p (c # cs) = (if startswith (c # cs) p then [] else c # before_sub p cs)"

text \<open>\<^verbatim>\<open>parse_week_start\<close>: \<open>None\<close> is \<^verbatim>\<open>pd.NaT\<close>.\<close>

definition parse_week_start :: "(cell \<Rightarrow> date option) \<Rightarrow> string \<Rightarrow> date option" where
  "parse_week_start to_datetime s =
     (if contains ''to'' s then to_datetime (Str (strip (before_sub ''to'' s))) else None)"

text \<open>
  \<^verbatim>\<open>pd.to_datetime(...).dt.to_period("M").astype(str)\<close>: the year and the month of a
  week start. What \<^verbatim>\<open>astype(str)\<close> makes of a missing week start depends on the pandas
  at hand and is a parameter \<open>nat_text\<close> of the model: pandas before version 3 writes the
  text \<^verbatim>\<open>NaT\<close> (\<open>Some ''NaT''\<close>), an ordinary value of the column; from version 3 the
  value stays missing (\<open>None\<close>). The debugger program calls \<^verbatim>\<open>applymap\<close>, which pandas
  has before version 3 only.
\<close>

definition month_text :: "string option \<Rightarrow> date option \<Rightarrow> string option" where
  "month_text nat_text ws =
     (case ws of
        None \<Rightarrow> nat_text
      | Some (y, m, d) \<Rightarrow> Some (zfill 4 (digits y) @ ''-'' @ zfill 2 (digits m)))"

text \<open>A row of \<^verbatim>\<open>summary_df\<close>: the record with its \<^verbatim>\<open>WeekStart\<close> and \<^verbatim>\<open>Month\<close>.\<close>

type_synonym summary_row = "report_record \<times> date option \<times> string option"

definition add_week_month ::
  "string option \<Rightarrow> (cell \<Rightarrow> date option) \<Rightarrow> report_record list \<Rightarrow> summary_row list" where
  "add_week_month nat_text to_datetime recs =
     map (\<lambda>r. (r, parse_week_start to_datetime (r_week r),
                month_text nat_text (parse_week_start to_datetime (r_week r)))) recs"

text \<open>
  \<^verbatim>\<open>groupby\<close>: a key is \<open>None\<close> when one of its columns is missing, and such a row
  belongs to no group; the groups are the distinct keys in ascending order.
\<close>

definition row_campus_month :: "summary_row \<Rightarrow> (string \<times> string) option" where
  "row_campus_month x = map_option (\<lambda>month. (r_campus (fst x), month)) (snd (snd x))"

definition row_campus_month_week :: "summary_row \<Rightarrow> (string \<times> string \<times> string) option" where
  "row_campus_month_week x =
     map_option (\<lambda>month. (r_campus (fst x), month, r_week (fst x))) (snd (snd x))"

definition group_keys :: "('a \<Rightarrow> 'k::linorder option) \<Rightarrow> 'a list \<Rightarrow> 'k list" where
  "group_keys key xs = sort (remdups (List.map_filter key xs))"

definition groupby_size :: "('a \<Rightarrow> 'k::linorder option) \<Rightarrow> 'a list \<Rightarrow> ('k \<times> nat) list" where
  "groupby_size key xs =
     map (\<lambda>k. (k, length (filter (\<lambda>x. key x = Some k) xs))) (group_keys key xs)"

definition miss :: "summary_row list \<Rightarrow> summary_row list" where
  "miss rows = filter (\<lambda>x. r_issue (fst x)) rows"

type_synonym day_key = "string \<times> string \<times> string \<times> date \<times> string \<times> string"

definition row_day_key :: "summary_row \<Rightarrow> day_key option" where
  "row_day_key x =
     (case snd x of
        (Some ws, Some month) \<Rightarrow>
          Some (r_campus (fst x), r_class (fst x), r_week (fst x), ws, month, r_day (fst x))
      | _ \<Rightarrow> None)"

definition daily_ok :: "summary_row list \<Rightarrow> (day_key \<times> nat) list" where
  "daily_ok rows =
     (let meals3 = filter (\<lambda>x. r_meal (fst x) \<in> set [LB, LL, LP]) rows
      in map (\<lambda>k. (k, if length (filter (\<lambda>x. 0 < r_marked_count (fst x))
                                   (filter (\<lambda>x. row_day_key x = Some k) meals3)) = 3
                       then 1 else 0))
           (group_keys row_day_key meals3))"

text \<open>
  The mean of \<^verbatim>\<open>All3MealsRecorded\<close> over a group is kept as the pair (sum, size); the
  table shows their quotient. No column of \<^verbatim>\<open>daily_ok\<close> is missing.
\<close>

definition groupby_mean ::
  "(day_key \<Rightarrow> 'k::linorder) \<Rightarrow> (day_key \<times> nat) list \<Rightarrow> ('k \<times> nat \<times> nat) list" where
  "groupby_mean key d =
     map (\<lambda>k. (k, sum_list (map snd (filter (\<lambda>x. key (fst x) = k) d)),
                length (filter (\<lambda>x. key (fst x) = k) d)))
       (group_keys (\<lambda>x. Some (key (fst x))) d)"

definition dk_campus_month :: "day_key \<Rightarrow> string \<times> string" where
  "dk_campus_month k = (case k of (campus, cls, week, ws, month, day) \<Rightarrow> (campus, month))"

definition dk_campus_month_week :: "day_key \<Rightarrow> string \<times> string \<times> string" where
  "dk_campus_month_week k = (case k of (campus, cls, week, ws, month, day) \<Rightarrow> (campus, month, week))"

text \<open>
  The outer merge on the key with \<^verbatim>\<open>fillna\<close>: a key of either table, a missing count
  filled with 0, a missing mean filled with 0, written \<open>(0, 0)\<close>.
\<close>

definition merge_outer ::
  "('k \<times> nat) list \<Rightarrow> ('k \<times> nat \<times> nat) list \<Rightarrow> ('k \<times> nat \<times> nat \<times> nat) list" where
  "merge_outer missing kpi =
     map (\<lambda>k. (k, (case map_of missing k of Some n \<Rightarrow> n | None \<Rightarrow> 0),
                (case map_of kpi k of Some q \<Rightarrow> q | None \<Rightarrow> (0, 0))))
       (remdups (map fst missing @ map fst kpi))"

definition dash_month :: "summary_row list \<Rightarrow> ((string \<times> string) \<times> nat \<times> nat \<times> nat) list" where
  "dash_month rows =
     sort_key (\<lambda>((campus, month), v). (month, campus))
       (merge_outer (groupby_size row_campus_month (miss rows))
          (groupby_mean dk_campus_month (daily_ok rows)))"

definition dash_month_week ::
  "summary_row list \<Rightarrow> ((string \<times> string \<times> string) \<times> nat \<times> nat \<times> nat) list" where
  "dash_month_week rows =
     sort_key (\<lambda>((campus, month, week), v). (month, week, campus))
       (merge_outer (groupby_size row_campus_month_week (miss rows))
          (groupby_mean dk_campus_month_week (daily_ok rows)))"

record report =
  Dashboard_Month :: "((string \<times> string) \<times> nat \<times> nat \<times> nat) list"
  Dashboard_Month_Week :: "((string \<times> string \<times> string) \<times> nat \<times> nat \<times> nat) list"
  Summary_All :: "summary_row list"

definition assemble ::
  "string option \<Rightarrow> (cell \<Rightarrow> date option) \<Rightarrow> report_record list \<Rightarrow> report" where
  "assemble nat_text to_datetime all_records =
     (if all_records = []
      then \<lparr>Dashboard_Month = [], Dashboard_Month_Week = [], Summary_All = []\<rparr>
      else let summary_df = add_week_month nat_text to_datetime all_records
           in \<lparr>Dashboard_Month = dash_month summary_df,
                Dashboard_Month_Week = dash_month_week summary_df,
                Summary_All = summary_df\<rparr>)"

definition build_report ::
  "string option \<Rightarrow> (cell \<Rightarrow> date option) \<Rightarrow> (string \<times> grid) list \<Rightarrow> exn + report" where
  "build_report nat_text to_datetime sheets =
     (case build_report_loop to_datetime sheets [] of
        Inl e \<Rightarrow> Inl e
      | Inr all_records \<Rightarrow> Inr (assemble nat_text to_datetime all_records))"

section \<open>Specification predicates and example sheets\<close>

text \<open>
  Column ranges \<open>(start, end, day)\<close> that follow one another from \<open>lo\<close> to \<open>hi\<close>,
  and what the specification asks of the day blocks: no range is empty, each ends where
  the next starts, they are ordered and pairwise disjoint, the last ends at the width, and
  together they cover the columns from the first start to the width.
\<close>

fun contiguous :: "nat \<Rightarrow> (nat \<times> nat \<times> string) list \<Rightarrow> nat \<Rightarrow> bool" where
  "contiguous lo [] hi = (lo = hi)"
| "contiguous lo ((c, e, d) # rs) hi = (c = lo \<and> c < e \<and> contiguous e rs hi)"

definition is_partition :: "(nat \<times> nat \<times> string) list \<Rightarrow> nat \<Rightarrow> bool" where
  "is_partition rs w \<longleftrightarrow>
     rs \<noteq> []
     \<and> (\<forall>i<length rs. fst (rs ! i) < fst (snd (rs ! i)))
     \<and> (\<forall>i. Suc i < length rs \<longrightarrow> fst (snd (rs ! i)) = fst (rs ! Suc i))
     \<and> (\<forall>i j. i < j \<and> j < length rs \<longrightarrow>
           fst (snd (rs ! i)) \<le> fst (rs ! j)
           \<and> {fst (rs ! i)..<fst (snd (rs ! i))} \<inter> {fst (rs ! j)..<fst (snd (rs ! j))} = {})
     \<and> fst (snd (last rs)) = w
     \<and> (\<Union>x\<in>set rs. {fst x..<fst (snd x)}) = {fst (hd rs)..<w}"

text \<open>A date parser that recognises nothing, and the projections of a parse result.\<close>

definition no_dates :: "cell \<Rightarrow> date option" where "no_dates x = None"

definition fuzzy_info :: "string + (day_meal_count list \<times> info) \<Rightarrow> info option" where
  "fuzzy_info res = (case res of Inl e \<Rightarrow> None | Inr (cnts, nfo) \<Rightarrow> Some nfo)"

definition strict_parsed :: "exn + parsed option \<Rightarrow> parsed option" where
  "strict_parsed res = (case res of Inl e \<Rightarrow> None | Inr p \<Rightarrow> p)"

text \<open>
  Example sheets. \<open>sheet1\<close> is the first end-to-end scenario of the specification (day row
  5, label row 6, three student rows, seven columns). The monitoring sheets have at least
  30 rows, as the header scan of the strict parser needs.
\<close>

definition sheet1 :: grid where
  "sheet1 =
     replicate 5 [] @
     [[Absent, Absent, Str ''Mon.'', Absent, Absent, Str ''Tue.'', Absent],
      [Absent, Absent, Str ''At'', Str ''B'', Str ''L'', Str ''At'', Str ''B''],
      [Num 1, Str ''Ann'', Absent, Str ''X'', Str ''X''],
      [Num 2, Str ''Bob''],
      [Num 3, Str ''Cy'']]"

definition sheet_wide :: grid where
  "sheet_wide =
     [[Absent, Absent, Str ''Mon'', Absent, Str ''Tue'', Absent, Absent, Absent, Absent, Absent],
      [Absent, Absent, Str ''At'', Str ''B'', Str ''At'', Str ''B''],
      [Num 1, Str ''Ann'', Str ''X'', Str ''X'', Absent, Str ''X''],
      [Num 2, Str ''Bob'', Str ''X''],
      [],
      [Num 3, Str ''Cy'', Str ''X'', Str ''X'']]"

definition sheet_name_only :: grid where
  "sheet_name_only =
     [[Absent, Absent, Str ''Mon'', Absent, Str ''Tue'', Absent, Absent, Absent, Absent, Absent],
      [Absent, Absent, Str ''At'', Str ''B'', Str ''At'', Str ''B''],
      [Absent, Str ''Zed''],
      [Num 2, Str ''Bob'', Str ''X'', Str ''X'', Str ''X'', Str ''X''],
      [Num 3, Str ''Cy'', Str ''X'', Str ''X'', Str ''X'', Str ''X'']]"

definition monitor_sheet :: grid where
  "monitor_sheet =
     replicate 8 [] @
     [[Absent, Absent, Str ''Mon.'', Absent, Str ''Tue.'', Absent, Absent, Absent, Absent, Absent],
      [Absent, Absent, Str ''At'', Str ''B'', Str ''At'', Str ''B''],
      [Num 1, Str ''Ann'', Str ''X'', Str ''X'', Absent, Str ''X''],
      [Num 2, Str ''Bob'', Str ''X''],
      []] @
     replicate 18 []"

definition monitor_sheet_short_row :: grid where
  "monitor_sheet_short_row =
     replicate 8 [] @
     [[Absent, Absent, Str ''Mon.'', Absent, Str ''Tue.'', Absent, Absent, Absent, Absent, Absent],
      [Absent, Absent, Str ''At'', Str ''B'', Str ''At'', Str ''B''],
      [Num 1, Str ''Zed''],
      [Num 2, Str ''Bob'', Str ''X'', Str ''X'', Str ''X'']] @
     replicate 19 []"

(* value "parse_sheet_fuzzy no_dates True sheet1" *)
(* value "parse_sheet_fuzzy no_dates True sheet_wide" *)
(* value "parse_sheet_fuzzy no_dates True sheet_name_only" *)
(* value "parse_sheet_strict no_dates monitor_sheet" *)
(* value "parse_sheet_strict no_dates monitor_sheet_short_row" *)
(* value "nrows monitor_sheet_short_row" *)

definition sheet_c4 :: grid where
  "sheet_c4 =
     [[Str ''Mon'', Str ''Tue'']] @ replicate 7 [] @
     [[Absent, Absent, Str ''Mon.''],
      [Absent, Absent, Str ''B''],
      [Num 1, Str ''Ann'', Str ''X'']] @
     replicate 19 []"

text \<open>
  The blocks dictionary. \<open>labelled_ranges\<close> are the column ranges of one day name that
  have a label; \<open>stored_labels\<close> is what the dictionary holds under that name once every
  range has been stored: the labels of the last such range.
\<close>

definition labelled_ranges ::
  "(nat \<Rightarrow> nat \<Rightarrow> (nat \<times> label) list) \<Rightarrow> (nat \<times> nat \<times> string) list \<Rightarrow> string
     \<Rightarrow> (nat \<times> nat \<times> string) list" where
  "labelled_ranges labels_of rs day = filter (\<lambda>(c, e, d). d = day \<and> labels_of c e \<noteq> []) rs"

definition stored_labels ::
  "(nat \<Rightarrow> nat \<Rightarrow> (nat \<times> label) list) \<Rightarrow> (nat \<times> nat \<times> string) list \<Rightarrow> string
     \<Rightarrow> (nat \<times> label) list option" where
  "stored_labels labels_of rs day =
     (case rev (labelled_ranges labels_of rs day) of
        [] \<Rightarrow> None
      | (c, e, d) # earlier \<Rightarrow> Some (sort_key fst (labels_of c e)))"


definition sheet_dup :: grid where
  "sheet_dup =
     [[Absent, Absent, Str ''Mon.'', Absent, Str ''Mon'', Absent],
      [Absent, Absent, Str ''At'', Str ''B'', Str ''At'', Str ''L''],
      [Num 1, Str ''Ann'', Str ''X'', Str ''X'', Str ''X'', Absent]]"

definition monitor_dup :: grid where
  "monitor_dup =
     replicate 8 [] @
     [[Absent, Absent, Str ''Mon.'', Absent, Str ''Mon.'', Absent],
      [Absent, Absent, Str ''At'', Str ''B'', Str ''At'', Str ''L''],
      [Num 1, Str ''Ann'', Str ''X'', Str ''X'', Str ''X'', Absent]] @
     replicate 19 []"

text \<open>
  What one sheet contributes to a batch: its debug entry and its records under
  \<^verbatim>\<open>build_all\<close>, its records under \<^verbatim>\<open>build_report\<close>. \<open>returns\<close>: the strict parser does
  not raise on the sheet; \<open>parses\<close>: it does not return \<^verbatim>\<open>None\<close>.
\<close>

definition sheet_entry :: "(cell \<Rightarrow> date option) \<Rightarrow> bool \<Rightarrow> string \<times> grid \<Rightarrow> string \<times> detail" where
  "sheet_entry to_datetime a sheet =
     (fst sheet,
      case parse_sheet_fuzzy to_datetime a (snd sheet) of
        Inl err \<Rightarrow> Error_detail err
      | Inr (counts, nfo) \<Rightarrow> Ok_detail nfo)"

definition sheet_summary ::
  "(cell \<Rightarrow> date option) \<Rightarrow> bool \<Rightarrow> string \<times> grid \<Rightarrow> summary_record list" where
  "sheet_summary to_datetime a sheet =
     (case parse_sheet_fuzzy to_datetime a (snd sheet) of
        Inl err \<Rightarrow> []
      | Inr (counts, nfo) \<Rightarrow>
          map (\<lambda>row. \<lparr>sr_sheet = fst sheet, sr_day = rec_day row, sr_meal = rec_meal row,
                       sr_marked_count = marked_count row,
                       sr_attendance_marked = attendance_marked row\<rparr>) counts)"

definition sheet_report_records :: "(cell \<Rightarrow> date option) \<Rightarrow> string \<times> grid \<Rightarrow> report_record list" where
  "sheet_report_records to_datetime sheet =
     (case parse_sheet_strict to_datetime (snd sheet) of
        Inr (Some p) \<Rightarrow> sheet_records p
      | _ \<Rightarrow> [])"

definition returns :: "(cell \<Rightarrow> date option) \<Rightarrow> string \<times> grid \<Rightarrow> bool" where
  "returns to_datetime sheet = (parse_sheet_strict to_datetime (snd sheet) \<noteq> Inl IndexError)"

definition parses :: "(cell \<Rightarrow> date option) \<Rightarrow> string \<times> grid \<Rightarrow> bool" where
  "parses to_datetime sheet = (parse_sheet_strict to_datetime (snd sheet) \<noteq> Inr None)"

definition notes_sheet :: grid where
  "notes_sheet = [[Str ''notes'']] @ replicate 29 []"

definition short_sheet :: grid where
  "short_sheet = [[Str ''Mon.'', Str ''Tue.'']]"

text \<open>A record whose week text \<^verbatim>\<open>parse_week_start\<close> turns into a date.\<close>

definition parseable :: "(cell \<Rightarrow> date option) \<Rightarrow> report_record \<Rightarrow> bool" where
  "parseable to_datetime r = (parse_week_start to_datetime (r_week r) \<noteq> None)"


section \<open>Properties of the string primitives\<close>

lemma startswith_prefix: "startswith t p \<longleftrightarrow> prefix p t"
  unfolding startswith_def
  by (metis append_eq_conv_conj prefix_def)

lemma contains_sublist: "contains p t \<longleftrightarrow> sublist p t"
proof (induction t)
  case Nil
  show ?case by auto
next
  case (Cons c cs)
  show ?case
    by (simp add: Cons.IH startswith_prefix sublist_Cons_right)
qed

lemma strip_empty_iff: "strip s = [] \<longleftrightarrow> (\<forall>c\<in>set s. isspace c)"
proof -
  have "strip s = [] \<longleftrightarrow> dropWhile isspace (rev (dropWhile isspace s)) = []"
    by (simp add: strip_def rstrip_def lstrip_def)
  also have "\<dots> \<longleftrightarrow> (\<forall>c\<in>set (dropWhile isspace s). isspace c)"
    by simp
  also have "\<dots> \<longleftrightarrow> (\<forall>c\<in>set s. isspace c)"
  proof
    assume h: "\<forall>c\<in>set (dropWhile isspace s). isspace c"
    have "dropWhile isspace s = []"
    proof (rule ccontr)
      assume "dropWhile isspace s \<noteq> []"
      then have "\<not> isspace (hd (dropWhile isspace s))" "hd (dropWhile isspace s) \<in> set (dropWhile isspace s)"
        using hd_dropWhile[of isspace s] by auto
      with h show False by blast
    qed
    then show "\<forall>c\<in>set s. isspace c"
      by simp
  next
    assume "\<forall>c\<in>set s. isspace c"
    then show "\<forall>c\<in>set (dropWhile isspace s). isspace c"
      using set_dropWhileD by fastforce
  qed
  finally show ?thesis .
qed

lemma strip_has_text:
  assumes "strip s \<noteq> []"
  shows "\<exists>c\<in>set (strip s). \<not> isspace c"
proof -
  let ?t = "dropWhile isspace (rev (lstrip s))"
  have t: "?t \<noteq> []" using assms by (simp add: strip_def rstrip_def)
  then have "\<not> isspace (hd ?t)" by (rule hd_dropWhile)
  moreover have "hd ?t \<in> set (strip s)" using t by (simp add: strip_def rstrip_def)
  ultimately show ?thesis by blast
qed

lemma split_ws_Nil: "split_ws s = [] \<longleftrightarrow> (\<forall>c\<in>set s. isspace c)"
proof -
  have "split_ws s = [] \<longleftrightarrow> dropWhile isspace s = []"
    by (subst split_ws.simps) (simp add: Let_def)
  then show ?thesis by simp
qed

lemma day_token_has_word:
  assumes "is_day_token (Str v)"
  shows "split_ws (strip v) \<noteq> []"
proof -
  have "norm v \<noteq> []"
    using assms by (auto simp: is_day_token_def startswith_def)
  then have "strip v \<noteq> []" by (auto simp: norm_def lower_def)
  then show ?thesis using strip_has_text split_ws_Nil by blast
qed

lemma day_short_word:
  "is_day_token (Str v) \<Longrightarrow> \<exists>w ws. split_ws (strip v) = w # ws \<and> day_short v = rstrip_dot w"
  using day_token_has_word[of v] by (cases "split_ws (strip v)") (auto simp: day_short_def)

section \<open>Claims on the classifier and the mark detector\<close>

text \<open>
  C6. On every text cell the fuzzy meal classifier of the debugger is the precedence table
  of the specification applied to the normalised text: Attendance before Breakfast before
  Lunch before PM-Snack, each with its exact set, prefixes and substrings, the first match
  winning and no match giving none.
\<close>

theorem meal_label_from_token_precedence:
  "meal_label_from_token (Str s) = classify_meal_spec (norm s)"
  by (simp add: meal_label_from_token_def classify_meal_spec_def spec_attendance_def
      spec_breakfast_def spec_lunch_def spec_pmsnack_def startswith_prefix contains_sublist
      Let_def)

theorem meal_label_from_token_precedence_witness:
  "classify_meal_spec (norm ''PM Snack!'') = Some LP
   \<and> classify_meal_spec (norm '' Att. '') = Some LAt
   \<and> classify_meal_spec (norm ''parent'') = None"
proof -
  have "meal_label_from_token (Str ''PM Snack!'') = Some LP"
    "meal_label_from_token (Str '' Att. '') = Some LAt"
    "meal_label_from_token (Str ''parent'') = None"
    by code_simp+
  then show ?thesis
    using meal_label_from_token_precedence[of "''PM Snack!''"]
      meal_label_from_token_precedence[of "'' Att. ''"]
      meal_label_from_token_precedence[of "''parent''"]
    by simp
qed

text \<open>
  C8. The permissive mark detector is false exactly on an absent value and on a text that
  is empty or white space only; it is true on every number (zero too), on every boolean and
  on every text with a character that is not white space.
\<close>

theorem nonempty_mark_false_iff:
  "(\<not> nonempty_mark x \<longleftrightarrow> x = Absent \<or> (\<exists>s. x = Str s \<and> (\<forall>c\<in>set s. isspace c)))
   \<and> nonempty_mark (Num n) \<and> nonempty_mark (Bool b)
   \<and> ((\<exists>c\<in>set s. \<not> isspace c) \<longrightarrow> nonempty_mark (Str s))"
proof -
  have "\<not> nonempty_mark x \<longleftrightarrow> x = Absent \<or> (\<exists>s. x = Str s \<and> (\<forall>c\<in>set s. isspace c))"
    by (cases x) (simp_all add: strip_empty_iff)
  moreover have "(\<exists>c\<in>set s. \<not> isspace c) \<longrightarrow> nonempty_mark (Str s)"
    by (simp add: strip_empty_iff)
  ultimately show ?thesis by simp
qed

theorem nonempty_mark_false_iff_witness:
  "\<not> nonempty_mark (Str ''  '') \<and> nonempty_mark (Num 0) \<and> nonempty_mark (Bool False)
   \<and> nonempty_mark (Str '' x '')"
proof -
  have a: "\<forall>c\<in>set ''  ''. isspace c" by (simp add: isspace_def)
  have b: "\<exists>c\<in>set '' x ''. \<not> isspace c" by (simp add: isspace_def)
  show ?thesis
    using nonempty_mark_false_iff[of "Str ''  ''" 0 False "'' x ''"] a b by simp
qed

section \<open>Loops over a range of rows\<close>

lemma find_upt_Some:
  "find P [a..<b] = Some r \<longleftrightarrow> a \<le> r \<and> r < b \<and> P r \<and> (\<forall>j. a \<le> j \<and> j < r \<longrightarrow> \<not> P j)"
proof (induction "b - a" arbitrary: a)
  case 0
  then show ?case by auto
next
  case (Suc n)
  then have ab: "a < b" and n: "n = b - Suc a" by auto
  have upt: "[a..<b] = a # [Suc a..<b]" using ab by (simp add: upt_conv_Cons)
  show ?case
  proof (cases "P a")
    case True
    then show ?thesis using upt ab
      by (auto simp: le_less)
  next
    case False
    have "find P [a..<b] = find P [Suc a..<b]" using upt False by simp
    also have "\<dots> = Some r \<longleftrightarrow> Suc a \<le> r \<and> r < b \<and> P r \<and> (\<forall>j. Suc a \<le> j \<and> j < r \<longrightarrow> \<not> P j)"
      using Suc.hyps(1)[OF n] .
    finally show ?thesis using False
      by (metis Suc_leD Suc_leI le_neq_implies_less nless_le)
  qed
qed

lemma find_upt_None:
  "find P [a..<b] = None \<longleftrightarrow> (\<forall>j. a \<le> j \<and> j < b \<longrightarrow> \<not> P j)"
  by (auto simp: find_None_iff)

section \<open>What a successful parse went through\<close>

lemma parse_sheet_fuzzy_no_day_row:
  "parse_sheet_fuzzy td a g = Inl ''No day row found'' \<longleftrightarrow> find_day_row g = None"
  by (simp add: parse_sheet_fuzzy_def Let_def split: option.splits)

lemma parse_sheet_fuzzy_Inr:
  "parse_sheet_fuzzy td a g = Inr (cnts, nfo) \<Longrightarrow>
     find_day_row g = Some (day_row nfo)
     \<and> find_label_row g (day_row nfo) = Some (label_row nfo)
     \<and> day_starts g (day_row nfo) \<noteq> []
     \<and> blocks nfo = build_blocks g (label_row nfo) (sort (day_starts g (day_row nfo)))
     \<and> blocks nfo \<noteq> []
     \<and> find_start_row g (label_row nfo) = Some (start_row nfo)
     \<and> end_row nfo = find_end_row 60 g (start_row nfo)
     \<and> cnts = count_rows a (students g (start_row nfo) (end_row nfo)) (blocks nfo)"
  by (auto simp add: parse_sheet_fuzzy_def Let_def split: option.splits if_splits)

lemma parse_sheet_strict_Some:
  "parse_sheet_strict td g = Inr (Some p) \<Longrightarrow>
     \<exists>dr. find_day_row_strict g = Some dr
     \<and> day_starts_strict g dr \<noteq> []
     \<and> find_start_row_strict g (dr + 1) = Some (fst (p_student_rows p))
     \<and> snd (p_student_rows p) = find_end_row 80 g (fst (p_student_rows p))
     \<and> p_counts p = count_rows_strict (students g (fst (p_student_rows p)) (snd (p_student_rows p)))
          (build_blocks_strict g (dr + 1) (sort (day_starts_strict g dr)))"
  by (auto simp add: parse_sheet_strict_def Let_def split: option.splits if_splits)

lemma parse_sheet_strict_no_day_row:
  "find_day_row_strict g = None \<Longrightarrow> \<not> (0 < min (ncols g) 100 \<and> nrows g < 30) \<Longrightarrow> parse_sheet_strict td g = Inr None"
  by (simp add: parse_sheet_strict_def)

lemma fuzzy_info_Some:
  "fuzzy_info res = Some nfo \<Longrightarrow> \<exists>cnts. res = Inr (cnts, nfo)"
  by (auto simp: fuzzy_info_def split: sum.splits prod.splits)

lemma strict_parsed_Some:
  "strict_parsed res = Some p \<Longrightarrow> res = Inr (Some p)"
  by (auto simp: strict_parsed_def split: sum.splits)

lemma find_start_row_less: "find_start_row g lr = Some sr \<Longrightarrow> sr < nrows g"
  unfolding find_start_row_def find_upt_Some by simp

lemma find_start_row_strict_less: "find_start_row_strict g lr = Some sr \<Longrightarrow> sr < nrows g"
  unfolding find_start_row_strict_def find_upt_Some by simp

lemma find_end_row_after:
  assumes "sr < r" "r < nrows g" "mostly_empty g r" "\<forall>j. sr \<le> j \<and> j < r \<longrightarrow> \<not> mostly_empty g j"
  shows "find_end_row b g sr = int r - 1"
proof -
  have "find (mostly_empty g) [sr..<nrows g] = Some r"
    unfolding find_upt_Some using assms by simp
  then show ?thesis using assms(1) by (simp add: find_end_row_def)
qed

lemma find_end_row_at:
  assumes "sr < nrows g" "mostly_empty g sr"
  shows "find_end_row b g sr = min (int sr + int b) (int (nrows g) - 1)"
proof -
  have "find (mostly_empty g) [sr..<nrows g] = Some sr"
    unfolding find_upt_Some using assms by auto
  then show ?thesis by (simp add: find_end_row_def)
qed

lemma find_end_row_none:
  assumes "\<forall>j. sr \<le> j \<and> j < nrows g \<longrightarrow> \<not> mostly_empty g j"
  shows "find_end_row b g sr = int sr"
proof -
  have "find (mostly_empty g) [sr..<nrows g] = None"
    unfolding find_upt_None using assms by simp
  then show ?thesis by (simp add: find_end_row_def)
qed

section \<open>Day-row detection\<close>

text \<open>
  C4 as the specification states it, for both variants: the day row is the least row, among
  the first 80 (fuzzy) or 60 (strict), with at least two day tokens, and the parse fails
  when there is none. The strict parser does something else. On \<open>sheet_c4\<close> row 0 holds two
  day tokens and is the least such row, yet the strict parser takes row 8, which holds a
  single day token, as its day row and goes on to find the student row 10.
\<close>

theorem day_row_detection_counterexample:
  "find_day_row sheet_c4 = Some 0 \<and> day_token_count sheet_c4 0 = 2
   \<and> find_day_row_strict sheet_c4 = Some 8 \<and> day_token_count sheet_c4 8 = 1
   \<and> map_option p_student_rows (strict_parsed (parse_sheet_strict no_dates sheet_c4)) = Some (10, 10)"
  by code_simp

text \<open>
  C4, amended. Fuzzy variant: the day row is the least row index below \<open>min 80 height\<close>
  with at least two day tokens; the parse fails with \<^verbatim>\<open>No day row found\<close> exactly when
  no such row exists; a successful parse reports that row. Strict variant: the day row is
  the least row index \<open>r\<close> with \<open>8 \<le> r < min 60 height\<close> that holds a text ending in a
  dot after stripping; a successful parse has found such a row, and without one the parser
  returns \<^verbatim>\<open>None\<close>, with no reason, on a sheet that the header scan can read.
\<close>

theorem day_row_detection:
  "(find_day_row g = Some r \<longleftrightarrow>
      r < min 80 (nrows g) \<and> 2 \<le> day_token_count g r \<and> (\<forall>j<r. day_token_count g j < 2))
   \<and> (parse_sheet_fuzzy td a g = Inl ''No day row found'' \<longleftrightarrow>
        (\<forall>j<min 80 (nrows g). day_token_count g j < 2))
   \<and> (parse_sheet_fuzzy td a g = Inr (cnts, nfo) \<longrightarrow> find_day_row g = Some (day_row nfo))
   \<and> (find_day_row_strict g = Some r' \<longleftrightarrow>
        8 \<le> r' \<and> r' < min 60 (nrows g) \<and> list_ex dotted (iloc_row g r')
        \<and> (\<forall>j. 8 \<le> j \<and> j < r' \<longrightarrow> \<not> list_ex dotted (iloc_row g j)))
   \<and> (parse_sheet_strict td g = Inr (Some p) \<longrightarrow> (\<exists>dr. find_day_row_strict g = Some dr))
   \<and> ((\<forall>j. 8 \<le> j \<and> j < min 60 (nrows g) \<longrightarrow> \<not> list_ex dotted (iloc_row g j))
        \<and> \<not> (0 < ncols g \<and> nrows g < 30)
        \<longrightarrow> parse_sheet_strict td g = Inr None)"
proof -
  have 1: "find_day_row g = Some r \<longleftrightarrow>
      r < min 80 (nrows g) \<and> 2 \<le> day_token_count g r \<and> (\<forall>j<r. day_token_count g j < 2)"
    unfolding find_day_row_def find_upt_Some by (auto simp: not_le)
  have 2: "parse_sheet_fuzzy td a g = Inl ''No day row found'' \<longleftrightarrow>
        (\<forall>j<min 80 (nrows g). day_token_count g j < 2)"
    unfolding parse_sheet_fuzzy_no_day_row find_day_row_def find_upt_None by (auto simp: not_le)
  have 3: "parse_sheet_fuzzy td a g = Inr (cnts, nfo) \<longrightarrow> find_day_row g = Some (day_row nfo)"
    using parse_sheet_fuzzy_Inr by blast
  have 4: "find_day_row_strict g = Some r' \<longleftrightarrow>
        8 \<le> r' \<and> r' < min 60 (nrows g) \<and> list_ex dotted (iloc_row g r')
        \<and> (\<forall>j. 8 \<le> j \<and> j < r' \<longrightarrow> \<not> list_ex dotted (iloc_row g j))"
    unfolding find_day_row_strict_def find_upt_Some by simp
  have 5: "parse_sheet_strict td g = Inr (Some p) \<longrightarrow> (\<exists>dr. find_day_row_strict g = Some dr)"
    using parse_sheet_strict_Some by blast
  have 6: "(\<forall>j. 8 \<le> j \<and> j < min 60 (nrows g) \<longrightarrow> \<not> list_ex dotted (iloc_row g j))
        \<and> \<not> (0 < ncols g \<and> nrows g < 30)
        \<longrightarrow> parse_sheet_strict td g = Inr None"
  proof
    assume h: "(\<forall>j. 8 \<le> j \<and> j < min 60 (nrows g) \<longrightarrow> \<not> list_ex dotted (iloc_row g j))
        \<and> \<not> (0 < ncols g \<and> nrows g < 30)"
    then have "find_day_row_strict g = None"
      unfolding find_day_row_strict_def find_upt_None by simp
    moreover have "\<not> (0 < min (ncols g) 100 \<and> nrows g < 30)" using h by auto
    ultimately show "parse_sheet_strict td g = Inr None"
      by (rule parse_sheet_strict_no_day_row)
  qed
  show ?thesis using 1 2 3 4 5 6 by blast
qed

theorem day_row_detection_witness:
  "5 < min 80 (nrows sheet1) \<and> 2 \<le> day_token_count sheet1 5
   \<and> day_token_count sheet1 4 < 2
   \<and> day_token_count [[Str ''Mon'']] 0 < 2
   \<and> 8 < min 60 (nrows monitor_sheet) \<and> list_ex dotted (iloc_row monitor_sheet 8)"
proof -
  have a: "find_day_row sheet1 = Some 5" by code_simp
  have b: "parse_sheet_fuzzy no_dates True [[Str ''Mon'']] = Inl ''No day row found''" by code_simp
  have c: "find_day_row_strict monitor_sheet = Some 8" by code_simp
  have n: "0 < min 80 (nrows [[Str ''Mon'']])" by code_simp
  note t1 = day_row_detection[of sheet1 5 no_dates True undefined undefined 8 undefined]
  note t2 = day_row_detection[of "[[Str ''Mon'']]" 5 no_dates True undefined undefined 8 undefined]
  note t3 = day_row_detection[of monitor_sheet 5 no_dates True undefined undefined 8 undefined]
  have p1: "5 < min 80 (nrows sheet1) \<and> 2 \<le> day_token_count sheet1 5
      \<and> (\<forall>j<5. day_token_count sheet1 j < 2)"
    using t1[THEN conjunct1] a by (rule iffD1)
  have p2: "\<forall>j<min 80 (nrows [[Str ''Mon'']]). day_token_count [[Str ''Mon'']] j < 2"
    using t2[THEN conjunct2, THEN conjunct1] b by (rule iffD1)
  have p3: "8 \<le> (8::nat) \<and> 8 < min 60 (nrows monitor_sheet) \<and> list_ex dotted (iloc_row monitor_sheet 8)
      \<and> (\<forall>j. 8 \<le> j \<and> j < 8 \<longrightarrow> \<not> list_ex dotted (iloc_row monitor_sheet j))"
    using t3[THEN conjunct2, THEN conjunct2, THEN conjunct2, THEN conjunct1] c by (rule iffD1)
  have q1: "day_token_count sheet1 4 < 2" using p1 by simp
  have q2: "day_token_count [[Str ''Mon'']] 0 < 2" using p2 n by blast
  from p1 q1 q2 p3 show ?thesis by (iprover intro: conjI elim: conjE)
qed

section \<open>Day blocks\<close>

lemma contiguous_le: "contiguous lo rs hi \<Longrightarrow> lo \<le> hi"
  by (induction lo rs hi rule: contiguous.induct) auto

lemma contiguous_bounds:
  "contiguous lo rs hi \<Longrightarrow> x \<in> set rs \<Longrightarrow> lo \<le> fst x \<and> fst x < fst (snd x) \<and> fst (snd x) \<le> hi"
proof (induction lo rs hi rule: contiguous.induct)
  case (1 lo hi)
  then show ?case by simp
next
  case (2 lo c e d rs hi)
  then show ?case using contiguous_le[of e rs hi] by fastforce
qed

lemma contiguous_union:
  "contiguous lo rs hi \<Longrightarrow> (\<Union>x\<in>set rs. {fst x..<fst (snd x)}) = {lo..<hi}"
proof (induction lo rs hi rule: contiguous.induct)
  case (1 lo hi)
  then show ?case by simp
next
  case (2 lo c e d rs hi)
  then have "e \<le> hi" using contiguous_le by auto
  with 2 show ?case by (auto simp: ivl_disj_un)
qed

lemma contiguous_next:
  "contiguous lo rs hi \<Longrightarrow> Suc i < length rs \<Longrightarrow> fst (snd (rs ! i)) = fst (rs ! Suc i)"
proof (induction lo rs hi arbitrary: i rule: contiguous.induct)
  case (1 lo hi)
  then show ?case by simp
next
  case (2 lo c e d rs hi)
  show ?case
  proof (cases i)
    case 0
    then show ?thesis using 2 by (cases rs) auto
  next
    case (Suc k)
    then show ?thesis using 2 by auto
  qed
qed

lemma contiguous_ordered:
  "contiguous lo rs hi \<Longrightarrow> i < j \<Longrightarrow> j < length rs \<Longrightarrow> fst (snd (rs ! i)) \<le> fst (rs ! j)"
proof (induction lo rs hi arbitrary: i j rule: contiguous.induct)
  case (1 lo hi)
  then show ?case by simp
next
  case (2 lo c e d rs hi)
  show ?case
  proof (cases i)
    case 0
    obtain k where k: "j = Suc k" using 2(3) by (cases j) auto
    then have "rs ! k \<in> set rs" using 2(4) by simp
    then have "e \<le> fst (rs ! k)" using contiguous_bounds 2(2) by fastforce
    then show ?thesis using 0 k by simp
  next
    case (Suc i')
    obtain k where k: "j = Suc k" using 2(3) by (cases j) auto
    then show ?thesis using 2 Suc by auto
  qed
qed

lemma contiguous_last:
  "contiguous lo rs hi \<Longrightarrow> rs \<noteq> [] \<Longrightarrow> fst (snd (last rs)) = hi \<and> fst (hd rs) = lo"
proof (induction lo rs hi rule: contiguous.induct)
  case (1 lo hi)
  then show ?case by simp
next
  case (2 lo c e d rs hi)
  show ?case
  proof (cases rs)
    case Nil
    then show ?thesis using 2 by simp
  next
    case (Cons r rs')
    then show ?thesis using 2 by simp
  qed
qed

lemma contiguous_is_partition:
  assumes "contiguous lo rs w" "rs \<noteq> []"
  shows "is_partition rs w"
proof -
  have a: "\<forall>i<length rs. fst (rs ! i) < fst (snd (rs ! i))"
    using contiguous_bounds[OF assms(1)] by simp
  have b: "\<forall>i. Suc i < length rs \<longrightarrow> fst (snd (rs ! i)) = fst (rs ! Suc i)"
    using contiguous_next[OF assms(1)] by simp
  have c: "\<forall>i j. i < j \<and> j < length rs \<longrightarrow> fst (snd (rs ! i)) \<le> fst (rs ! j)
           \<and> {fst (rs ! i)..<fst (snd (rs ! i))} \<inter> {fst (rs ! j)..<fst (snd (rs ! j))} = {}"
    using contiguous_ordered[OF assms(1)] by fastforce
  have d: "fst (snd (last rs)) = w" "fst (hd rs) = lo"
    using contiguous_last[OF assms] by simp_all
  have e: "(\<Union>x\<in>set rs. {fst x..<fst (snd x)}) = {fst (hd rs)..<w}"
    using contiguous_union[OF assms(1)] d by simp
  show ?thesis unfolding is_partition_def using assms(2) a b c d(1) e by blast
qed

lemma block_ranges_contiguous:
  "ds \<noteq> [] \<Longrightarrow> sorted_wrt (<) (map fst ds) \<Longrightarrow> \<forall>c\<in>set (map fst ds). c < w \<Longrightarrow>
     contiguous (fst (hd ds)) (block_ranges ds w) w"
  by (induction ds w rule: block_ranges.induct) auto

lemma block_ranges_starts: "map (\<lambda>(c, e, d). (c, d)) (block_ranges ds w) = ds"
  by (induction ds w rule: block_ranges.induct) auto

lemma block_ranges_Nil: "block_ranges ds w = [] \<longleftrightarrow> ds = []"
  by (induction ds w rule: block_ranges.induct) auto

lemma map_filter_fst:
  assumes "\<And>c y. f c = Some y \<Longrightarrow> fst y = c"
  shows "map fst (List.map_filter f xs) = filter (\<lambda>c. f c \<noteq> None) xs"
  using assms by (induction xs) (auto simp: List.map_filter_def)

lemma day_starts_cols:
  "map fst (day_starts g dr) = filter (\<lambda>c. is_day_token (iat g dr c)) [0..<ncols g]"
proof -
  have "map fst (day_starts g dr) = filter (\<lambda>c. (case iat g dr c of
              Str v \<Rightarrow> if is_day_token (Str v) then Some (c, day_short v) else None
            | _ \<Rightarrow> None) \<noteq> None) [0..<ncols g]"
    unfolding day_starts_def
    by (rule map_filter_fst) (auto split: cell.splits if_splits)
  also have "\<dots> = filter (\<lambda>c. is_day_token (iat g dr c)) [0..<ncols g]"
    by (rule filter_cong) (auto split: cell.splits simp: is_day_token_def)
  finally show ?thesis .
qed

lemma day_starts_strict_cols:
  "map fst (day_starts_strict g dr) = filter (\<lambda>c. dotted (iat g dr c)) [0..<ncols g]"
proof -
  have "map fst (day_starts_strict g dr) = filter (\<lambda>c. (case iat g dr c of
              Str day \<Rightarrow> if endswith_dot (strip day) then Some (c, rstrip_dot (strip day)) else None
            | _ \<Rightarrow> None) \<noteq> None) [0..<ncols g]"
    unfolding day_starts_strict_def
    by (rule map_filter_fst) (auto split: cell.splits if_splits)
  also have "\<dots> = filter (\<lambda>c. dotted (iat g dr c)) [0..<ncols g]"
    by (rule filter_cong) (auto split: cell.splits simp: dotted_def)
  finally show ?thesis .
qed

lemma strictly_increasing_sort_id:
  fixes ds :: "(nat \<times> string) list"
  assumes "sorted_wrt (<) (map fst ds)"
  shows "sort ds = ds"
proof -
  have "sorted_wrt (\<lambda>x y. fst x < fst y) ds"
    using assms by (simp add: sorted_wrt_map)
  then have "sorted_wrt (\<le>) ds"
    by (rule sorted_wrt_mono_rel[rotated]) (auto simp: less_eq_prod_def)
  then show ?thesis by (simp add: sorted_sort_id)
qed

lemma filter_upt_increasing: "sorted_wrt (<) (filter P [0..<n])"
  by (simp add: sorted_wrt_filter)

lemma ranges_partition:
  fixes ds :: "(nat \<times> string) list"
  assumes "map fst ds = filter P [0..<w]" "ds \<noteq> []"
  shows "is_partition (block_ranges (sort ds) w) w \<and> map (\<lambda>(c, e, d). (c, d)) (block_ranges (sort ds) w) = ds"
proof -
  have s: "sorted_wrt (<) (map fst ds)" using assms(1) filter_upt_increasing by simp
  have b: "\<forall>c\<in>set (map fst ds). c < w" using assms(1) by simp
  have id: "sort ds = ds" using s by (rule strictly_increasing_sort_id)
  have "contiguous (fst (hd ds)) (block_ranges ds w) w"
    using block_ranges_contiguous[OF assms(2) s b] .
  moreover have "block_ranges ds w \<noteq> []" using assms(2) block_ranges_Nil by simp
  ultimately have "is_partition (block_ranges ds w) w" by (rule contiguous_is_partition)
  then show ?thesis using id block_ranges_starts by simp
qed

text \<open>
  C5. On every sheet that parses, in either variant, the column ranges of the day blocks,
  taken from the sorted day-start columns, are non-empty half-open ranges, each ending where
  the next starts, ordered and pairwise disjoint; the last ends at the number of columns and
  their union is the range from the first day-start column to the number of columns. Block
  \<open>i\<close> starts at the \<open>i\<close>-th day-start column and carries its day name.
\<close>

theorem day_blocks_partition:
  "(parse_sheet_fuzzy td a g = Inr (cnts, nfo) \<longrightarrow>
      is_partition (block_ranges (sort (day_starts g (day_row nfo))) (ncols g)) (ncols g)
      \<and> map (\<lambda>(c, e, d). (c, d)) (block_ranges (sort (day_starts g (day_row nfo))) (ncols g))
          = day_starts g (day_row nfo))
   \<and> (parse_sheet_strict td g = Inr (Some p) \<longrightarrow>
      (\<exists>dr. find_day_row_strict g = Some dr
        \<and> is_partition (block_ranges (sort (day_starts_strict g dr)) (ncols g)) (ncols g)
        \<and> map (\<lambda>(c, e, d). (c, d)) (block_ranges (sort (day_starts_strict g dr)) (ncols g))
            = day_starts_strict g dr))"
proof -
  have 1: "is_partition (block_ranges (sort (day_starts g (day_row nfo))) (ncols g)) (ncols g)
      \<and> map (\<lambda>(c, e, d). (c, d)) (block_ranges (sort (day_starts g (day_row nfo))) (ncols g))
          = day_starts g (day_row nfo)"
    if h: "parse_sheet_fuzzy td a g = Inr (cnts, nfo)"
  proof -
    have ne: "day_starts g (day_row nfo) \<noteq> []" using parse_sheet_fuzzy_Inr[OF h] by simp
    show ?thesis using ranges_partition[OF day_starts_cols ne] by simp
  qed
  have 2: "\<exists>dr. find_day_row_strict g = Some dr
        \<and> is_partition (block_ranges (sort (day_starts_strict g dr)) (ncols g)) (ncols g)
        \<and> map (\<lambda>(c, e, d). (c, d)) (block_ranges (sort (day_starts_strict g dr)) (ncols g))
            = day_starts_strict g dr"
    if h: "parse_sheet_strict td g = Inr (Some p)"
  proof -
    obtain dr where dr: "find_day_row_strict g = Some dr" "day_starts_strict g dr \<noteq> []"
      using parse_sheet_strict_Some[OF h] by blast
    show ?thesis using ranges_partition[OF day_starts_strict_cols dr(2)] dr(1) by blast
  qed
  show ?thesis using 1 2 by blast
qed

theorem day_blocks_partition_witness:
  "is_partition (block_ranges (sort (day_starts sheet1 5)) (ncols sheet1)) (ncols sheet1)
   \<and> (\<exists>dr. find_day_row_strict monitor_sheet = Some dr
        \<and> is_partition (block_ranges (sort (day_starts_strict monitor_sheet dr)) (ncols monitor_sheet))
             (ncols monitor_sheet))"
proof -
  have "map_option day_row (fuzzy_info (parse_sheet_fuzzy no_dates True sheet1)) = Some 5"
    by code_simp
  then obtain cnts nfo where f: "parse_sheet_fuzzy no_dates True sheet1 = Inr (cnts, nfo)"
    and d: "day_row nfo = 5"
    using fuzzy_info_Some by fastforce
  have "map_option p_student_rows (strict_parsed (parse_sheet_strict no_dates monitor_sheet)) = Some (10, 11)"
    by code_simp
  then obtain p where s: "parse_sheet_strict no_dates monitor_sheet = Inr (Some p)"
    using strict_parsed_Some by fastforce
  show ?thesis
    using day_blocks_partition[of no_dates True sheet1 cnts nfo undefined]
      day_blocks_partition[of no_dates True monitor_sheet undefined undefined p] f d s
    by auto
qed

section \<open>The student rows\<close>

text \<open>
  C3 as the specification states it fails twice. On \<open>sheet1\<close> no row from the start row 7 on
  is mostly empty, and the end row is the start row 7, not the fallback
  \<open>min (7 + 60) (height - 1) = 9\<close>. On \<open>sheet_name_only\<close> the start row 2 is itself mostly
  empty, and the end row is the fallback 4, not the row before it.
\<close>

theorem end_row_detection_counterexample:
  "map_option start_row (fuzzy_info (parse_sheet_fuzzy no_dates True sheet1)) = Some 7
   \<and> map_option end_row (fuzzy_info (parse_sheet_fuzzy no_dates True sheet1)) = Some 7
   \<and> find (mostly_empty sheet1) [7..<nrows sheet1] = None
   \<and> min (7 + 60) (int (nrows sheet1) - 1) = 9
   \<and> map_option start_row (fuzzy_info (parse_sheet_fuzzy no_dates True sheet_name_only)) = Some 2
   \<and> map_option end_row (fuzzy_info (parse_sheet_fuzzy no_dates True sheet_name_only)) = Some 4
   \<and> mostly_empty sheet_name_only 2"
  by code_simp

text \<open>
  C3, amended. On every sheet that parses with start row \<open>start_row\<close>: if the first row at
  or after \<open>start_row\<close> with at least 8 absent cells among its first 10 columns is a row
  \<open>r\<close> after \<open>start_row\<close>, the end row is \<open>r - 1\<close>; if \<open>start_row\<close> itself is such a row,
  the end row is \<open>min (start_row + bound) (height - 1)\<close>, with bound 60 in the fuzzy and 80 in
  the strict variant. Nothing is said of a sheet without such a row.
\<close>

theorem end_row_detection:
  "(parse_sheet_fuzzy td a g = Inr (cnts, nfo) \<longrightarrow>
      (start_row nfo < r \<and> r < nrows g \<and> mostly_empty g r
         \<and> (\<forall>j. start_row nfo \<le> j \<and> j < r \<longrightarrow> \<not> mostly_empty g j)
       \<longrightarrow> end_row nfo = int r - 1)
      \<and> (mostly_empty g (start_row nfo)
         \<longrightarrow> end_row nfo = min (int (start_row nfo) + 60) (int (nrows g) - 1)))
   \<and> (parse_sheet_strict td g = Inr (Some p) \<longrightarrow>
      (fst (p_student_rows p) < r \<and> r < nrows g \<and> mostly_empty g r
         \<and> (\<forall>j. fst (p_student_rows p) \<le> j \<and> j < r \<longrightarrow> \<not> mostly_empty g j)
       \<longrightarrow> snd (p_student_rows p) = int r - 1)
      \<and> (mostly_empty g (fst (p_student_rows p))
         \<longrightarrow> snd (p_student_rows p) = min (int (fst (p_student_rows p)) + 80) (int (nrows g) - 1)))"
proof -
  have 1: "(start_row nfo < r \<and> r < nrows g \<and> mostly_empty g r
         \<and> (\<forall>j. start_row nfo \<le> j \<and> j < r \<longrightarrow> \<not> mostly_empty g j)
       \<longrightarrow> end_row nfo = int r - 1)
      \<and> (mostly_empty g (start_row nfo)
         \<longrightarrow> end_row nfo = min (int (start_row nfo) + 60) (int (nrows g) - 1))"
    if h: "parse_sheet_fuzzy td a g = Inr (cnts, nfo)"
  proof -
    have e: "end_row nfo = find_end_row 60 g (start_row nfo)"
      and s: "start_row nfo < nrows g"
      using parse_sheet_fuzzy_Inr[OF h] find_start_row_less by auto
    show ?thesis
      using find_end_row_after[of "start_row nfo" r g 60] find_end_row_at[OF s, of 60] e
      by auto
  qed
  have 2: "(fst (p_student_rows p) < r \<and> r < nrows g \<and> mostly_empty g r
         \<and> (\<forall>j. fst (p_student_rows p) \<le> j \<and> j < r \<longrightarrow> \<not> mostly_empty g j)
       \<longrightarrow> snd (p_student_rows p) = int r - 1)
      \<and> (mostly_empty g (fst (p_student_rows p))
         \<longrightarrow> snd (p_student_rows p) = min (int (fst (p_student_rows p)) + 80) (int (nrows g) - 1))"
    if h: "parse_sheet_strict td g = Inr (Some p)"
  proof -
    obtain dr where "find_start_row_strict g (dr + 1) = Some (fst (p_student_rows p))"
      and e: "snd (p_student_rows p) = find_end_row 80 g (fst (p_student_rows p))"
      using parse_sheet_strict_Some[OF h] by blast
    then have s: "fst (p_student_rows p) < nrows g"
      using find_start_row_strict_less by blast
    show ?thesis
      using find_end_row_after[of "fst (p_student_rows p)" r g 80] find_end_row_at[OF s, of 80] e
      by auto
  qed
  show ?thesis using 1 2 by blast
qed

lemma between_2_4: "2 \<le> j \<and> j < 4 \<Longrightarrow> j = 2 \<or> j = (3::nat)"
  by arith

lemma between_10_12: "10 \<le> j \<and> j < 12 \<Longrightarrow> j = 10 \<or> j = (11::nat)"
  by arith

theorem end_row_detection_witness:
  "(\<exists>cnts nfo. parse_sheet_fuzzy no_dates True sheet_wide = Inr (cnts, nfo)
       \<and> start_row nfo = 2 \<and> mostly_empty sheet_wide 4 \<and> end_row nfo = 3)
   \<and> (\<exists>cnts nfo. parse_sheet_fuzzy no_dates True sheet_name_only = Inr (cnts, nfo)
       \<and> start_row nfo = 2 \<and> mostly_empty sheet_name_only 2 \<and> end_row nfo = 4)
   \<and> (\<exists>p. parse_sheet_strict no_dates monitor_sheet = Inr (Some p)
       \<and> fst (p_student_rows p) = 10 \<and> mostly_empty monitor_sheet 12 \<and> snd (p_student_rows p) = 11)
   \<and> (\<exists>p. parse_sheet_strict no_dates monitor_sheet_short_row = Inr (Some p)
       \<and> fst (p_student_rows p) = 10 \<and> mostly_empty monitor_sheet_short_row 10
       \<and> snd (p_student_rows p) = 30)"
proof -
  have "map_option start_row (fuzzy_info (parse_sheet_fuzzy no_dates True sheet_wide)) = Some 2"
    by code_simp
  then obtain c1 n1 where f1: "parse_sheet_fuzzy no_dates True sheet_wide = Inr (c1, n1)"
    and s1: "start_row n1 = 2"
    using fuzzy_info_Some by fastforce
  have m1: "mostly_empty sheet_wide 4" "\<not> mostly_empty sheet_wide 2" "\<not> mostly_empty sheet_wide 3"
    "nrows sheet_wide = 6"
    by code_simp+
  have q1: "\<forall>j. start_row n1 \<le> j \<and> j < 4 \<longrightarrow> \<not> mostly_empty sheet_wide j"
    using m1 s1 between_2_4 by auto
  have e1: "end_row n1 = 3"
    using end_row_detection[of no_dates True sheet_wide c1 n1 4 undefined] f1 s1 m1 q1 by simp
  have "map_option start_row (fuzzy_info (parse_sheet_fuzzy no_dates True sheet_name_only)) = Some 2"
    by code_simp
  then obtain c2 n2 where f2: "parse_sheet_fuzzy no_dates True sheet_name_only = Inr (c2, n2)"
    and s2: "start_row n2 = 2"
    using fuzzy_info_Some by fastforce
  have m2: "mostly_empty sheet_name_only 2" "nrows sheet_name_only = 5"
    by code_simp+
  have e2: "end_row n2 = 4"
    using end_row_detection[of no_dates True sheet_name_only c2 n2 0 undefined] f2 s2 m2 by simp
  have "map_option (\<lambda>p. fst (p_student_rows p)) (strict_parsed (parse_sheet_strict no_dates monitor_sheet)) = Some 10"
    by code_simp
  then obtain p3 where f3: "parse_sheet_strict no_dates monitor_sheet = Inr (Some p3)"
    and s3: "fst (p_student_rows p3) = 10"
    using strict_parsed_Some by fastforce
  have m3: "mostly_empty monitor_sheet 12" "\<not> mostly_empty monitor_sheet 10"
    "\<not> mostly_empty monitor_sheet 11" "nrows monitor_sheet = 31"
    by code_simp+
  have q3: "\<forall>j. fst (p_student_rows p3) \<le> j \<and> j < 12 \<longrightarrow> \<not> mostly_empty monitor_sheet j"
    using m3 s3 between_10_12 by auto
  have e3: "snd (p_student_rows p3) = 11"
    using end_row_detection[of no_dates True monitor_sheet undefined undefined 12 p3] f3 s3 m3 q3 by simp
  have "map_option (\<lambda>p. fst (p_student_rows p)) (strict_parsed (parse_sheet_strict no_dates monitor_sheet_short_row)) = Some 10"
    by code_simp
  then obtain p4 where f4: "parse_sheet_strict no_dates monitor_sheet_short_row = Inr (Some p4)"
    and s4: "fst (p_student_rows p4) = 10"
    using strict_parsed_Some by fastforce
  have m4: "mostly_empty monitor_sheet_short_row 10" "nrows monitor_sheet_short_row = 31"
    by code_simp+
  have e4: "snd (p_student_rows p4) = 30"
    using end_row_detection[of no_dates True monitor_sheet_short_row undefined undefined 0 p4] f4 s4 m4 by simp
  show ?thesis
    using f1 s1 m1(1) e1 f2 s2 m2(1) e2 f3 s3 m3(1) e3 f4 s4 m4(1) e4 by blast
qed

section \<open>The student frame\<close>

lemma iat_beyond: "ncols g \<le> c \<Longrightarrow> iat g r c = Absent"
proof -
  have "\<forall>row\<in>set g. length row \<le> ncols g"
    unfolding ncols_def by (induction g) (auto simp: max_def le_max_iff_disj)
  then show "ncols g \<le> c \<Longrightarrow> iat g r c = Absent"
    unfolding iat_def by (metis leD nth_mem order_trans)
qed

lemma nrows_iloc_rows: "nrows (iloc_rows g a b) = min b (nrows g) - a"
  by (simp add: iloc_rows_def nrows_def)

lemma iat_iloc_rows:
  assumes "r < nrows (iloc_rows g a b)"
  shows "iat (iloc_rows g a b) r c = iat g (a + r) c"
proof -
  have r: "r < min b (nrows g) - a" using assms by (simp add: nrows_iloc_rows)
  have "[a..<min b (nrows g)] ! r = a + r"
    using r by (intro nth_upt) linarith
  then have "iloc_rows g a b ! r = iloc_row g (a + r)"
    using r by (simp add: iloc_rows_def)
  moreover have "r < length (iloc_rows g a b)" using assms by (simp add: nrows_def)
  ultimately have "iat (iloc_rows g a b) r c = (if c < ncols g then iat g (a + r) c else Absent)"
    by (simp add: iat_def[of "iloc_rows g a b"] iloc_row_def)
  then show ?thesis using iat_beyond[of g c "a + r"] by (simp add: not_less)
qed

lemma find_end_row_bounds:
  assumes "sr < nrows g"
  shows "int sr \<le> find_end_row b g sr \<and> find_end_row b g sr < int (nrows g)"
proof (cases "find (mostly_empty g) [sr..<nrows g]")
  case None
  then show ?thesis using assms by (simp add: find_end_row_def)
next
  case (Some r)
  then have "sr \<le> r" "r < nrows g" unfolding find_upt_Some by simp_all
  then show ?thesis using Some assms by (auto simp: find_end_row_def Let_def)
qed

lemma length_filter_upt: "length (filter P [a..<b]) = card {r. a \<le> r \<and> r < b \<and> P r}"
proof -
  have "distinct (filter P [a..<b])" by simp
  then have "length (filter P [a..<b]) = card (set (filter P [a..<b]))"
    by (rule distinct_card[symmetric])
  moreover have "set (filter P [a..<b]) = {r. a \<le> r \<and> r < b \<and> P r}" by auto
  ultimately show ?thesis by simp
qed

lemma students_rows:
  assumes "int sr \<le> er" "er < int (nrows g)"
  shows "length (filter (\<lambda>r. Q (\<lambda>c. iat (students g sr er) r c)) [0..<nrows (students g sr er)])
         = card {R. sr \<le> R \<and> int R \<le> er \<and> Q (\<lambda>c. iat g R c)}"
proof -
  let ?st = "students g sr er"
  let ?n = "nrows ?st"
  have n: "?n = nat (er + 1) - sr"
    using assms by (simp add: students_def nrows_iloc_rows min_def)
  have "filter (\<lambda>r. Q (\<lambda>c. iat ?st r c)) [0..<?n] = filter (\<lambda>r. Q (\<lambda>c. iat g (sr + r) c)) [0..<?n]"
    by (rule filter_cong) (auto simp: students_def iat_iloc_rows)
  then have "length (filter (\<lambda>r. Q (\<lambda>c. iat ?st r c)) [0..<?n])
     = length (filter (\<lambda>r. Q (\<lambda>c. iat g (sr + r) c)) [0..<?n])" by simp
  also have "\<dots> = length (filter (\<lambda>R. Q (\<lambda>c. iat g R c)) (map (\<lambda>r. sr + r) [0..<?n]))"
    by (simp add: filter_map comp_def)
  also have "map (\<lambda>r. sr + r) [0..<?n] = [sr..<sr + ?n]"
    by (simp add: map_add_upt add.commute)
  also have "length (filter (\<lambda>R. Q (\<lambda>c. iat g R c)) [sr..<sr + ?n])
     = card {R. sr \<le> R \<and> R < sr + ?n \<and> Q (\<lambda>c. iat g R c)}"
    by (rule length_filter_upt)
  also have "{R. sr \<le> R \<and> R < sr + ?n \<and> Q (\<lambda>c. iat g R c)} = {R. sr \<le> R \<and> int R \<le> er \<and> Q (\<lambda>c. iat g R c)}"
    using n assms by auto
  finally show ?thesis .
qed

lemma count_marks_students:
  assumes "int sr \<le> er" "er < int (nrows g)"
  shows "count_marks mark (students g sr er) c = card {R. sr \<le> R \<and> int R \<le> er \<and> mark (iat g R c)}"
proof -
  have "count_marks mark (students g sr er) c
        = length (filter (\<lambda>r. mark (iat (students g sr er) r c)) [0..<nrows (students g sr er)])"
    by (simp add: count_marks_def col_vals_def filter_map comp_def)
  then show ?thesis
    using students_rows[OF assms, of "\<lambda>f. mark (f c)"] by simp
qed

lemma any_meal_count_students:
  assumes "int sr \<le> er" "er < int (nrows g)"
  shows "any_meal_count (students g sr er) mc
         = card {R. sr \<le> R \<and> int R \<le> er \<and> (\<exists>c\<in>set mc. nonempty_mark (iat g R c))}"
  using students_rows[OF assms, of "\<lambda>f. \<exists>c\<in>set mc. nonempty_mark (f c)"]
  by (simp add: any_meal_count_def list_ex_iff)

section \<open>The blocks dictionary\<close>

lemma map_of_dict_set: "map_of (dict_set k v bs) = (map_of bs)(k \<mapsto> v)"
  by (induction bs) (auto simp: fun_upd_twist)

lemma keys_dict_set: "set (map fst (dict_set k v bs)) = insert k (set (map fst bs))"
proof (induction bs)
  case Nil
  show ?case by simp
next
  case (Cons b bs)
  obtain k' v' where b: "b = (k', v')" by (cases b) auto
  show ?case
  proof (cases "k' = k")
    case True
    then show ?thesis using b by simp
  next
    case False
    then show ?thesis using b Cons by (simp add: insert_commute)
  qed
qed

lemma distinct_dict_set: "distinct (map fst bs) \<Longrightarrow> distinct (map fst (dict_set k v bs))"
proof (induction bs)
  case Nil
  then show ?case by simp
next
  case (Cons b bs)
  then show ?case using keys_dict_set[of k v bs] by (cases b) auto
qed

lemma distinct_store_block: "distinct (map fst bs) \<Longrightarrow> distinct (map fst (store_block ls day bs))"
  by (simp add: store_block_def distinct_dict_set)

lemma distinct_fold_store:
  "distinct (map fst bs) \<Longrightarrow>
     distinct (map fst (fold (\<lambda>(c, e, d). store_block (labels_of c e) d) rs bs))"
  by (induction rs arbitrary: bs) (auto simp: distinct_store_block)

lemma map_of_fold_store:
  "map_of (fold (\<lambda>(c, e, d). store_block (labels_of c e) d) rs bs) day =
     (case stored_labels labels_of rs day of None \<Rightarrow> map_of bs day | Some ls \<Rightarrow> Some ls)"
proof (induction rs rule: rev_induct)
  case Nil
  show ?case by (simp add: stored_labels_def labelled_ranges_def)
next
  case (snoc x rs)
  obtain c e d where x: "x = (c, e, d)" by (cases x) auto
  show ?case
  proof (cases "d = day \<and> labels_of c e \<noteq> []")
    case True
    then have "stored_labels labels_of (rs @ [x]) day = Some (sort_key fst (labels_of c e))"
      by (simp add: stored_labels_def labelled_ranges_def x)
    then show ?thesis using True
      by (simp add: x store_block_def map_of_dict_set)
  next
    case False
    then have "stored_labels labels_of (rs @ [x]) day = stored_labels labels_of rs day"
      by (auto simp: stored_labels_def labelled_ranges_def x)
    then show ?thesis using False snoc
      by (auto simp: x store_block_def map_of_dict_set)
  qed
qed

lemma build_blocks_map_of:
  "map_of (build_blocks g lr ds) day = stored_labels (block_labels g lr) (block_ranges ds (ncols g)) day"
  unfolding build_blocks_def map_of_fold_store by (simp split: option.splits)

lemma build_blocks_strict_map_of:
  "map_of (build_blocks_strict g lr ds) day
     = stored_labels (block_labels_strict g lr) (block_ranges ds (ncols g)) day"
  unfolding build_blocks_strict_def map_of_fold_store by (simp split: option.splits)

lemma build_blocks_distinct: "distinct (map fst (build_blocks g lr ds))"
  unfolding build_blocks_def by (rule distinct_fold_store) simp

lemma build_blocks_strict_distinct: "distinct (map fst (build_blocks_strict g lr ds))"
  unfolding build_blocks_strict_def by (rule distinct_fold_store) simp

lemma meal_rows_day: "x \<in> set (meal_rows mark st d att cols) \<Longrightarrow> rec_day x = d \<and> attendance_marked x = att"
  by (auto simp: meal_rows_def)

lemma filter_meal_rows:
  "filter (\<lambda>x. rec_day x = day) (meal_rows mark st d att cols)
     = (if d = day then meal_rows mark st d att cols else [])"
  by (auto simp: filter_empty_conv dest: meal_rows_day intro: filter_True)

lemma filter_day_concat:
  assumes "distinct (map fst bs)"
  shows "filter (\<lambda>x. rec_day x = day)
           (concat (map (\<lambda>(d, cols). meal_rows mark st d (att cols) cols) bs))
         = (case map_of bs day of None \<Rightarrow> [] | Some cols \<Rightarrow> meal_rows mark st day (att cols) cols)"
  using assms
proof (induction bs)
  case Nil
  show ?case by simp
next
  case (Cons b bs)
  obtain d cols where b: "b = (d, cols)" by (cases b) auto
  show ?case
  proof (cases "d = day")
    case True
    then have "map_of bs day = None" using Cons.prems b
      by (simp add: map_of_eq_None_iff image_iff)
    then show ?thesis using Cons b True by (simp add: filter_meal_rows)
  next
    case False
    then show ?thesis using Cons b by (simp add: filter_meal_rows)
  qed
qed

lemma filter_day_count_rows:
  "distinct (map fst bs) \<Longrightarrow>
     filter (\<lambda>x. rec_day x = day) (count_rows a st bs)
       = (case map_of bs day of None \<Rightarrow> [] | Some cols \<Rightarrow> block_rows a st day cols)"
  unfolding count_rows_def block_rows_def
  using filter_day_concat[of bs day nonempty_mark st "att_present_of a st"] by simp

lemma filter_day_count_rows_strict:
  "distinct (map fst bs) \<Longrightarrow>
     filter (\<lambda>x. rec_day x = day) (count_rows_strict st bs)
       = (case map_of bs day of None \<Rightarrow> []
          | Some cols \<Rightarrow> meal_rows string_mark st day (att_marked_of st cols) cols)"
  unfolding count_rows_strict_def
  using filter_day_concat[of bs day string_mark st "att_marked_of st"] by simp

lemma meal_rows_Nil: "meal_rows mark st d att cols = [] \<longleftrightarrow> meal_cols_of cols = []"
  by (simp add: meal_rows_def meal_cols_of_def)

lemma parse_sheet_fuzzy_rows:
  assumes "parse_sheet_fuzzy td a g = Inr (cnts, nfo)"
  shows "int (start_row nfo) \<le> end_row nfo \<and> end_row nfo < int (nrows g)"
proof -
  have "find_start_row g (label_row nfo) = Some (start_row nfo)"
    and e: "end_row nfo = find_end_row 60 g (start_row nfo)"
    using parse_sheet_fuzzy_Inr[OF assms] by simp_all
  then have "start_row nfo < nrows g" using find_start_row_less by blast
  then show ?thesis using find_end_row_bounds e by simp
qed

lemma parse_sheet_fuzzy_day_rows:
  assumes "parse_sheet_fuzzy td a g = Inr (cnts, nfo)" "(day, cols) \<in> set (blocks nfo)"
  shows "filter (\<lambda>x. rec_day x = day) cnts
         = block_rows a (students g (start_row nfo) (end_row nfo)) day cols"
proof -
  have b: "blocks nfo = build_blocks g (label_row nfo) (sort (day_starts g (day_row nfo)))"
    and c: "cnts = count_rows a (students g (start_row nfo) (end_row nfo)) (blocks nfo)"
    using parse_sheet_fuzzy_Inr[OF assms(1)] by simp_all
  have d: "distinct (map fst (blocks nfo))" using b build_blocks_distinct by simp
  then have "map_of (blocks nfo) day = Some cols" using assms(2) by simp
  then show ?thesis using filter_day_count_rows[OF d] c by simp
qed

section \<open>Attendance\<close>

text \<open>
  C7. Take a sheet that the debugger parses and one of its day blocks. If the block's
  attendance column (the leftmost one, if it has any) holds no mark on the student rows,
  and some meal column of the block is marked on a student row \<open>R\<close>, then the block emits
  records, and every record emitted for it carries as \<^verbatim>\<open>AttendanceMarked\<close>: with
  \<^verbatim>\<open>assume_attendance_if_any_meal\<close> on, the number of student rows on which a meal
  column of the block is marked, which is at least 1; with the option off, 0.
\<close>

theorem attendance_inference:
  assumes "parse_sheet_fuzzy td assume_attendance_if_any_meal g = Inr (cnts, nfo)"
    and "(day, cols) \<in> set (blocks nfo)"
    and "\<forall>a\<in>set (take 1 (att_cols_of cols)).
           \<forall>R. start_row nfo \<le> R \<and> int R \<le> end_row nfo \<longrightarrow> \<not> nonempty_mark (iat g R a)"
    and "c \<in> set (meal_cols_of cols)"
    and "start_row nfo \<le> R" and "int R \<le> end_row nfo" and "nonempty_mark (iat g R c)"
  shows "filter (\<lambda>x. rec_day x = day) cnts \<noteq> []
         \<and> (\<forall>x\<in>set cnts. rec_day x = day \<longrightarrow>
               attendance_marked x =
                 (if assume_attendance_if_any_meal
                  then card {R. start_row nfo \<le> R \<and> int R \<le> end_row nfo
                               \<and> (\<exists>c\<in>set (meal_cols_of cols). nonempty_mark (iat g R c))}
                  else 0))
         \<and> 1 \<le> card {R. start_row nfo \<le> R \<and> int R \<le> end_row nfo
                        \<and> (\<exists>c\<in>set (meal_cols_of cols). nonempty_mark (iat g R c))}"
proof -
  let ?st = "students g (start_row nfo) (end_row nfo)"
  let ?S = "{R. start_row nfo \<le> R \<and> int R \<le> end_row nfo
               \<and> (\<exists>c\<in>set (meal_cols_of cols). nonempty_mark (iat g R c))}"
  note rows = parse_sheet_fuzzy_rows[OF assms(1)]
  have f: "filter (\<lambda>x. rec_day x = day) cnts = block_rows assume_attendance_if_any_meal ?st day cols"
    using parse_sheet_fuzzy_day_rows[OF assms(1,2)] .
  have mc: "meal_cols_of cols \<noteq> []" using assms(4) by auto
  have ne: "filter (\<lambda>x. rec_day x = day) cnts \<noteq> []"
    using f mc by (simp add: block_rows_def meal_rows_Nil)
  have blank: "(case att_cols_of cols of [] \<Rightarrow> 0 | a # as \<Rightarrow> count_marks nonempty_mark ?st a) = 0"
  proof (cases "att_cols_of cols")
    case Nil
    then show ?thesis by simp
  next
    case (Cons a as)
    then have "\<forall>R. start_row nfo \<le> R \<and> int R \<le> end_row nfo \<longrightarrow> \<not> nonempty_mark (iat g R a)"
      using assms(3) by simp
    then have e: "{R. start_row nfo \<le> R \<and> int R \<le> end_row nfo \<and> nonempty_mark (iat g R a)} = {}"
      by blast
    have "count_marks nonempty_mark ?st a
          = card {R. start_row nfo \<le> R \<and> int R \<le> end_row nfo \<and> nonempty_mark (iat g R a)}"
      using rows by (intro count_marks_students) simp_all
    then have "count_marks nonempty_mark ?st a = 0"
      by (simp only: e card.empty)
    then show ?thesis using Cons by simp
  qed
  have amc: "any_meal_count ?st (meal_cols_of cols) = card ?S"
    using rows by (intro any_meal_count_students) simp_all
  have att: "att_present_of assume_attendance_if_any_meal ?st cols
             = (if assume_attendance_if_any_meal then card ?S else 0)"
    unfolding att_present_of_def Let_def blank using mc amc by simp
  have all: "\<forall>x\<in>set cnts. rec_day x = day \<longrightarrow>
               attendance_marked x = (if assume_attendance_if_any_meal then card ?S else 0)"
  proof (intro ballI impI)
    fix x assume "x \<in> set cnts" "rec_day x = day"
    then have "x \<in> set (filter (\<lambda>x. rec_day x = day) cnts)" by simp
    then have "x \<in> set (meal_rows nonempty_mark ?st day
                           (att_present_of assume_attendance_if_any_meal ?st cols) cols)"
      using f by (simp add: block_rows_def)
    then have "attendance_marked x = att_present_of assume_attendance_if_any_meal ?st cols"
      by (rule meal_rows_day[THEN conjunct2])
    then show "attendance_marked x = (if assume_attendance_if_any_meal then card ?S else 0)"
      by (simp only: att)
  qed
  have fin: "finite ?S"
  proof (rule finite_subset)
    show "?S \<subseteq> {..nat (end_row nfo)}" by auto
  qed simp
  have "R \<in> ?S" using assms(4-7) by blast
  then have "?S \<noteq> {}" by blast
  then have "0 < card ?S" using fin by (simp add: card_gt_0_iff)
  then have one: "1 \<le> card ?S" by simp
  from ne all one show ?thesis by (iprover intro: conjI)
qed

theorem attendance_inference_witness:
  "(\<exists>cnts nfo. parse_sheet_fuzzy no_dates True sheet1 = Inr (cnts, nfo)
       \<and> filter (\<lambda>x. rec_day x = ''Mon'') cnts \<noteq> []
       \<and> (\<forall>x\<in>set cnts. rec_day x = ''Mon'' \<longrightarrow> attendance_marked x =
             card {R. 7 \<le> R \<and> int R \<le> 7
                      \<and> (\<exists>c\<in>set [3, 4]. nonempty_mark (iat sheet1 R c))})
       \<and> 1 \<le> card {R. 7 \<le> R \<and> int R \<le> 7 \<and> (\<exists>c\<in>set [3, 4]. nonempty_mark (iat sheet1 R c))})
   \<and> (\<exists>cnts nfo. parse_sheet_fuzzy no_dates False sheet1 = Inr (cnts, nfo)
       \<and> filter (\<lambda>x. rec_day x = ''Mon'') cnts \<noteq> []
       \<and> (\<forall>x\<in>set cnts. rec_day x = ''Mon'' \<longrightarrow> attendance_marked x = 0))"
proof -
  let ?cols = "[(2, LAt), (3, LB), (4, LL)]"
  have mc: "meal_cols_of ?cols = [3, 4]" and ac: "take 1 (att_cols_of ?cols) = [2]"
    by code_simp+
  have cell: "\<not> nonempty_mark (iat sheet1 7 2)" "nonempty_mark (iat sheet1 7 3)"
    by code_simp+
  have part: "\<exists>cnts nfo. parse_sheet_fuzzy no_dates b sheet1 = Inr (cnts, nfo)
       \<and> filter (\<lambda>x. rec_day x = ''Mon'') cnts \<noteq> []
       \<and> (\<forall>x\<in>set cnts. rec_day x = ''Mon'' \<longrightarrow> attendance_marked x =
             (if b then card {R. 7 \<le> R \<and> int R \<le> 7
                      \<and> (\<exists>c\<in>set [3, 4]. nonempty_mark (iat sheet1 R c))} else 0))
       \<and> 1 \<le> card {R. 7 \<le> R \<and> int R \<le> 7 \<and> (\<exists>c\<in>set [3, 4]. nonempty_mark (iat sheet1 R c))}"
    if i: "map_option (\<lambda>n. (start_row n, end_row n, blocks n))
             (fuzzy_info (parse_sheet_fuzzy no_dates b sheet1))
           = Some (7, 7, [(''Mon'', ?cols), (''Tue'', [(5, LAt), (6, LB)])])" for b
  proof -
    obtain cnts nfo where p: "parse_sheet_fuzzy no_dates b sheet1 = Inr (cnts, nfo)"
      and s: "start_row nfo = 7" and e: "end_row nfo = 7"
      and bl: "blocks nfo = [(''Mon'', ?cols), (''Tue'', [(5, LAt), (6, LB)])]"
      using i fuzzy_info_Some by fastforce
    have h2: "(''Mon'', ?cols) \<in> set (blocks nfo)" using bl by simp
    have h3: "\<forall>a\<in>set (take 1 (att_cols_of ?cols)).
           \<forall>R. start_row nfo \<le> R \<and> int R \<le> end_row nfo \<longrightarrow> \<not> nonempty_mark (iat sheet1 R a)"
    proof (intro ballI allI impI)
      fix a R assume a: "a \<in> set (take 1 (att_cols_of ?cols))"
        and "start_row nfo \<le> R \<and> int R \<le> end_row nfo"
      then have "R = 7" using s e by simp
      moreover have "a = 2" using a ac by simp
      ultimately show "\<not> nonempty_mark (iat sheet1 R a)" using cell by simp
    qed
    have h4: "3 \<in> set (meal_cols_of ?cols)" using mc by simp
    have h5: "start_row nfo \<le> 7" "int 7 \<le> end_row nfo" using s e by simp_all
    note t = attendance_inference[OF p h2 h3 h4 h5 cell(2)]
    show ?thesis using t p unfolding s e mc by blast
  qed
  have i1: "map_option (\<lambda>n. (start_row n, end_row n, blocks n))
             (fuzzy_info (parse_sheet_fuzzy no_dates True sheet1))
           = Some (7, 7, [(''Mon'', ?cols), (''Tue'', [(5, LAt), (6, LB)])])"
    by code_simp
  have i2: "map_option (\<lambda>n. (start_row n, end_row n, blocks n))
             (fuzzy_info (parse_sheet_fuzzy no_dates False sheet1))
           = Some (7, 7, [(''Mon'', ?cols), (''Tue'', [(5, LAt), (6, LB)])])"
    by code_simp
  show ?thesis using part[OF i1] part[OF i2] by auto
qed

section \<open>The labels of a stored block\<close>










lemma meal_col_not_att:
  assumes "sorted_wrt (<) (map fst cols)" "c \<in> set (meal_cols_of cols)"
  shows "c \<notin> set (att_cols_of cols)"
proof
  assume "c \<in> set (att_cols_of cols)"
  then have a: "(c, LAt) \<in> set cols" by (auto simp: att_cols_of_def)
  obtain lab where m: "(c, lab) \<in> set cols" "lab \<noteq> LAt"
    using assms(2) by (auto simp: meal_cols_of_def)
  have "distinct (map fst cols)" using assms(1) strict_sorted_iff by blast
  then show False using a m by (meson eq_key_imp_eq_value)
qed

section \<open>Duplicate day names\<close>

text \<open>
  C1 as the specification states it: two day-start columns of the same day name give two
  day blocks, and records are emitted for both. The blocks are stored in a dictionary under
  the day name. On \<open>sheet_dup\<close> (fuzzy) and \<open>monitor_dup\<close> (strict) the columns 2 and 4
  both carry the name \<^verbatim>\<open>Mon\<close>; the first range holds the labels At and B, the second At
  and L; the dictionary ends with the single entry of the second range, and the only record
  emitted is the one for L. No record is emitted for B.
\<close>

theorem duplicate_day_blocks_counterexample:
  "day_starts sheet_dup 0 = [(2, ''Mon''), (4, ''Mon'')]
   \<and> block_labels sheet_dup 1 2 4 = [(2, LAt), (3, LB)]
   \<and> block_labels sheet_dup 1 4 6 = [(4, LAt), (5, LL)]
   \<and> parse_sheet_fuzzy no_dates True sheet_dup
       = Inr ([\<lparr>rec_day = ''Mon'', rec_meal = LL, marked_count = 0, attendance_marked = 1\<rparr>],
              \<lparr>day_row = 0, label_row = 1, start_row = 2, end_row = 2,
               blocks = [(''Mon'', [(4, LAt), (5, LL)])], week_start = None\<rparr>)
   \<and> day_starts_strict monitor_dup 8 = [(2, ''Mon''), (4, ''Mon'')]
   \<and> block_labels_strict monitor_dup 9 2 4 = [(2, LAt), (3, LB)]
   \<and> map_option p_counts (strict_parsed (parse_sheet_strict no_dates monitor_dup))
       = Some [\<lparr>rec_day = ''Mon'', rec_meal = LL, marked_count = 0, attendance_marked = 1\<rparr>]"
  by code_simp

text \<open>
  C1, amended. On every sheet that parses, in either variant, the blocks dictionary has one
  entry for each day name at most; under a day name it holds the sorted labels of the last
  day-start column of that name whose range has a label (\<open>stored_labels\<close>), an earlier
  block of the same name being replaced; and the records emitted under that day name are
  the records of that one stored block.
\<close>

theorem duplicate_day_blocks:
  "(parse_sheet_fuzzy td a g = Inr (cnts, nfo) \<longrightarrow>
      distinct (map fst (blocks nfo))
      \<and> map_of (blocks nfo) day
          = stored_labels (block_labels g (label_row nfo))
              (block_ranges (sort (day_starts g (day_row nfo))) (ncols g)) day
      \<and> filter (\<lambda>x. rec_day x = day) cnts
          = (case map_of (blocks nfo) day of
               None \<Rightarrow> []
             | Some cols \<Rightarrow> block_rows a (students g (start_row nfo) (end_row nfo)) day cols))
   \<and> (parse_sheet_strict td g = Inr (Some p) \<longrightarrow>
      (\<exists>dr bs st. find_day_row_strict g = Some dr
         \<and> bs = build_blocks_strict g (dr + 1) (sort (day_starts_strict g dr))
         \<and> st = students g (fst (p_student_rows p)) (snd (p_student_rows p))
         \<and> distinct (map fst bs)
         \<and> map_of bs day
             = stored_labels (block_labels_strict g (dr + 1))
                 (block_ranges (sort (day_starts_strict g dr)) (ncols g)) day
         \<and> filter (\<lambda>x. rec_day x = day) (p_counts p)
             = (case map_of bs day of
                  None \<Rightarrow> []
                | Some cols \<Rightarrow> meal_rows string_mark st day (att_marked_of st cols) cols)))"
proof -
  have 1: "distinct (map fst (blocks nfo))
      \<and> map_of (blocks nfo) day
          = stored_labels (block_labels g (label_row nfo))
              (block_ranges (sort (day_starts g (day_row nfo))) (ncols g)) day
      \<and> filter (\<lambda>x. rec_day x = day) cnts
          = (case map_of (blocks nfo) day of
               None \<Rightarrow> []
             | Some cols \<Rightarrow> block_rows a (students g (start_row nfo) (end_row nfo)) day cols)"
    if h: "parse_sheet_fuzzy td a g = Inr (cnts, nfo)"
  proof -
    have b: "blocks nfo = build_blocks g (label_row nfo) (sort (day_starts g (day_row nfo)))"
      and c: "cnts = count_rows a (students g (start_row nfo) (end_row nfo)) (blocks nfo)"
      using parse_sheet_fuzzy_Inr[OF h] by simp_all
    have d: "distinct (map fst (blocks nfo))" using b build_blocks_distinct by simp
    show ?thesis
      using d filter_day_count_rows[OF d, of day a] c
      by (simp add: b build_blocks_map_of)
  qed
  have 2: "\<exists>dr bs st. find_day_row_strict g = Some dr
         \<and> bs = build_blocks_strict g (dr + 1) (sort (day_starts_strict g dr))
         \<and> st = students g (fst (p_student_rows p)) (snd (p_student_rows p))
         \<and> distinct (map fst bs)
         \<and> map_of bs day
             = stored_labels (block_labels_strict g (dr + 1))
                 (block_ranges (sort (day_starts_strict g dr)) (ncols g)) day
         \<and> filter (\<lambda>x. rec_day x = day) (p_counts p)
             = (case map_of bs day of
                  None \<Rightarrow> []
                | Some cols \<Rightarrow> meal_rows string_mark st day (att_marked_of st cols) cols)"
    if h: "parse_sheet_strict td g = Inr (Some p)"
  proof -
    obtain dr where dr: "find_day_row_strict g = Some dr"
      and c: "p_counts p = count_rows_strict (students g (fst (p_student_rows p)) (snd (p_student_rows p)))
          (build_blocks_strict g (dr + 1) (sort (day_starts_strict g dr)))"
      using parse_sheet_strict_Some[OF h] by blast
    let ?bs = "build_blocks_strict g (dr + 1) (sort (day_starts_strict g dr))"
    have d: "distinct (map fst ?bs)" by (rule build_blocks_strict_distinct)
    show ?thesis
      using dr d filter_day_count_rows_strict[OF d, of day] c
      by (simp add: build_blocks_strict_map_of)
  qed
  from 1 2 show ?thesis by blast
qed

theorem duplicate_day_blocks_witness:
  "(\<exists>cnts nfo. parse_sheet_fuzzy no_dates True sheet_dup = Inr (cnts, nfo)
       \<and> distinct (map fst (blocks nfo))
       \<and> map_of (blocks nfo) ''Mon'' = Some [(4, LAt), (5, LL)]
       \<and> filter (\<lambda>x. rec_day x = ''Mon'') cnts
           = block_rows True (students sheet_dup (start_row nfo) (end_row nfo)) ''Mon''
               [(4, LAt), (5, LL)])
   \<and> (\<exists>p dr bs. parse_sheet_strict no_dates monitor_dup = Inr (Some p)
       \<and> find_day_row_strict monitor_dup = Some dr
       \<and> bs = build_blocks_strict monitor_dup (dr + 1) (sort (day_starts_strict monitor_dup dr))
       \<and> distinct (map fst bs)
       \<and> map_of bs ''Mon'' = Some [(4, LAt), (5, LL)])"
proof -
  have "map_option (\<lambda>n. (day_row n, label_row n)) (fuzzy_info (parse_sheet_fuzzy no_dates True sheet_dup))
        = Some (0, 1)"
    by code_simp
  then obtain cnts nfo where f: "parse_sheet_fuzzy no_dates True sheet_dup = Inr (cnts, nfo)"
    and d: "day_row nfo = 0" and l: "label_row nfo = 1"
    using fuzzy_info_Some by fastforce
  have sl: "stored_labels (block_labels sheet_dup 1)
              (block_ranges (sort (day_starts sheet_dup 0)) (ncols sheet_dup)) ''Mon''
            = Some [(4, LAt), (5, LL)]"
    by code_simp
  note t = duplicate_day_blocks[of no_dates True sheet_dup cnts nfo "''Mon''" undefined,
      THEN conjunct1, rule_format, OF f]
  have 1: "\<exists>cnts nfo. parse_sheet_fuzzy no_dates True sheet_dup = Inr (cnts, nfo)
       \<and> distinct (map fst (blocks nfo))
       \<and> map_of (blocks nfo) ''Mon'' = Some [(4, LAt), (5, LL)]
       \<and> filter (\<lambda>x. rec_day x = ''Mon'') cnts
           = block_rows True (students sheet_dup (start_row nfo) (end_row nfo)) ''Mon''
               [(4, LAt), (5, LL)]"
    using t f sl unfolding d l by auto
  have "strict_parsed (parse_sheet_strict no_dates monitor_dup) \<noteq> None" by code_simp
  then obtain p where s: "parse_sheet_strict no_dates monitor_dup = Inr (Some p)"
    using strict_parsed_Some by fastforce
  have dr8: "find_day_row_strict monitor_dup = Some 8" by code_simp
  have sl2: "stored_labels (block_labels_strict monitor_dup (8 + 1))
              (block_ranges (sort (day_starts_strict monitor_dup 8)) (ncols monitor_dup)) ''Mon''
            = Some [(4, LAt), (5, LL)]"
    by code_simp
  note t2 = duplicate_day_blocks[of no_dates undefined monitor_dup undefined undefined "''Mon''"
      p, THEN conjunct2, rule_format, OF s]
  have 2: "\<exists>p dr bs. parse_sheet_strict no_dates monitor_dup = Inr (Some p)
       \<and> find_day_row_strict monitor_dup = Some dr
       \<and> bs = build_blocks_strict monitor_dup (dr + 1) (sort (day_starts_strict monitor_dup dr))
       \<and> distinct (map fst bs)
       \<and> map_of bs ''Mon'' = Some [(4, LAt), (5, LL)]"
    using t2 s dr8 sl2 by auto
  from 1 2 show ?thesis by (rule conjI)
qed

section \<open>A failing sheet in a batch\<close>

lemma build_all_loop_eq:
  "build_all_loop td a sheets (recs, dbg)
     = (recs @ concat (map (sheet_summary td a) sheets), dbg @ map (sheet_entry td a) sheets)"
proof (induction sheets arbitrary: recs dbg)
  case Nil
  show ?case by simp
next
  case (Cons sh sheets)
  obtain s df where sh: "sh = (s, df)" by (cases sh) auto
  show ?case
  proof (cases "parse_sheet_fuzzy td a df")
    case (Inl err)
    then show ?thesis using Cons sh by (simp add: sheet_summary_def sheet_entry_def)
  next
    case (Inr res)
    obtain counts nfo where res: "res = (counts, nfo)" by (cases res) auto
    show ?thesis using Cons sh Inr res by (simp add: sheet_summary_def sheet_entry_def)
  qed
qed

lemma sheet_records_Nil: "sheet_records p = [] \<longleftrightarrow> p_counts p = []"
  by (simp add: sheet_records_def)

lemma build_report_loop_eq:
  "list_all (returns td) sheets \<Longrightarrow>
     build_report_loop td sheets recs = Inr (recs @ concat (map (sheet_report_records td) sheets))"
proof (induction sheets arbitrary: recs)
  case Nil
  show ?case by simp
next
  case (Cons sh sheets)
  obtain s df where sh: "sh = (s, df)" by (cases sh) auto
  have r: "parse_sheet_strict td df \<noteq> Inl IndexError"
    using Cons.prems sh by (simp add: returns_def)
  have rest: "list_all (returns td) sheets"
    using Cons.prems by simp
  show ?case
  proof (cases "parse_sheet_strict td df")
    case (Inl e)
    then show ?thesis using r by (cases e) simp
  next
    case (Inr res)
    show ?thesis
    proof (cases res)
      case None
      then show ?thesis using Inr sh Cons.IH[OF rest] by (simp add: sheet_report_records_def)
    next
      case (Some p)
      then show ?thesis using Inr sh Cons.IH[OF rest] sheet_records_Nil[of p]
        by (simp add: sheet_report_records_def)
    qed
  qed
qed

lemma sheet_report_records_failed:
  "\<not> parses td sheet \<Longrightarrow> sheet_report_records td sheet = []"
  by (simp add: parses_def sheet_report_records_def)

lemma concat_map_filter_parses:
  "concat (map (sheet_report_records td) (filter (parses td) sheets))
     = concat (map (sheet_report_records td) sheets)"
  by (induction sheets) (simp_all add: sheet_report_records_failed)

text \<open>
  C9 as the specification states it, for both programs: a failure on a sheet is recorded as
  a diagnostic entry, and the batch never aborts. \<^verbatim>\<open>build_report\<close> does neither. The
  strict parser returns \<^verbatim>\<open>None\<close> on \<open>notes_sheet\<close>, and the report of the batch with
  that sheet is the report of the batch without it: nothing records the failure. On
  \<open>short_sheet\<close>, which has fewer than 30 rows, the strict parser raises, and so does the
  whole batch, although \<open>monitor_sheet\<close> parses.
\<close>

theorem sheet_failures_counterexample:
  "parse_sheet_strict no_dates notes_sheet = Inr None
   \<and> build_report (Some ''NaT'') no_dates [(''bad'', notes_sheet), (''good'', monitor_sheet)]
       = build_report (Some ''NaT'') no_dates [(''good'', monitor_sheet)]
   \<and> map_option p_student_rows (strict_parsed (parse_sheet_strict no_dates monitor_sheet))
       = Some (10, 11)
   \<and> parse_sheet_strict no_dates short_sheet = Inl IndexError
   \<and> build_report (Some ''NaT'') no_dates [(''short'', short_sheet), (''good'', monitor_sheet)] = Inl IndexError"
  by code_simp

text \<open>
  C9, amended. \<^verbatim>\<open>build_all\<close> (debugger): the debug log has one entry for each sheet, in
  order; the entry of a sheet that fails to parse is the failure reason; the records are
  those of every sheet that parses, whatever happens on the other sheets; the batch always
  returns. \<^verbatim>\<open>build_report\<close> (monitoring), on a workbook on no sheet of which the strict
  parser raises: the records are those of every sheet that parses; a sheet on which the
  parser returns \<^verbatim>\<open>None\<close> is skipped and leaves no entry of any kind, the report being
  that of the workbook without it.
\<close>

theorem sheet_failures:
  "build_all td a sheets = (concat (map (sheet_summary td a) sheets), map (sheet_entry td a) sheets)
   \<and> (\<forall>i<length sheets. \<forall>err. parse_sheet_fuzzy td a (snd (sheets ! i)) = Inl err \<longrightarrow>
         snd (build_all td a sheets) ! i = (fst (sheets ! i), Error_detail err))
   \<and> (list_all (returns td) sheets \<longrightarrow>
         build_report_loop td sheets [] = Inr (concat (map (sheet_report_records td) sheets))
         \<and> build_report nt td sheets = build_report nt td (filter (parses td) sheets))"
proof -
  have 1: "build_all td a sheets
           = (concat (map (sheet_summary td a) sheets), map (sheet_entry td a) sheets)"
    by (simp add: build_all_def build_all_loop_eq)
  have 2: "\<forall>i<length sheets. \<forall>err. parse_sheet_fuzzy td a (snd (sheets ! i)) = Inl err \<longrightarrow>
         snd (build_all td a sheets) ! i = (fst (sheets ! i), Error_detail err)"
    by (simp add: 1 sheet_entry_def)
  have 3: "build_report_loop td sheets [] = Inr (concat (map (sheet_report_records td) sheets))
         \<and> build_report nt td sheets = build_report nt td (filter (parses td) sheets)"
    if h: "list_all (returns td) sheets"
  proof -
    have h': "list_all (returns td) (filter (parses td) sheets)"
      using h by (simp add: list_all_iff)
    show ?thesis
      using build_report_loop_eq[OF h, of "[]"] build_report_loop_eq[OF h', of "[]"]
      by (simp add: build_report_def concat_map_filter_parses)
  qed
  from 1 2 3 show ?thesis by blast
qed

theorem sheet_failures_witness:
  "snd (build_all no_dates True [(''short'', short_sheet), (''good'', sheet1)]) ! 0
     = (''short'', Error_detail ''No label row found after day row'')
   \<and> fst (build_all no_dates True [(''short'', short_sheet), (''good'', sheet1)])
     = sheet_summary no_dates True (''short'', short_sheet)
       @ sheet_summary no_dates True (''good'', sheet1)
   \<and> build_report (Some ''NaT'') no_dates [(''bad'', notes_sheet), (''good'', monitor_sheet)]
     = build_report (Some ''NaT'') no_dates
         (filter (parses no_dates) [(''bad'', notes_sheet), (''good'', monitor_sheet)])"
proof -
  let ?fz = "[(''short'', short_sheet), (''good'', sheet1)]"
  let ?st = "[(''bad'', notes_sheet), (''good'', monitor_sheet)]"
  have e: "parse_sheet_fuzzy no_dates True (snd (?fz ! 0)) = Inl ''No label row found after day row''"
    by code_simp
  have r: "list_all (returns no_dates) ?st" by code_simp
  note t1 = sheet_failures[of no_dates True ?fz "Some ''NaT''"]
  note t2 = sheet_failures[of no_dates True ?st "Some ''NaT''"]
  have 1: "snd (build_all no_dates True ?fz) ! 0
     = (''short'', Error_detail ''No label row found after day row'')"
    using t1[THEN conjunct2, THEN conjunct1, rule_format, of 0, OF _ e] by simp
  have 2: "fst (build_all no_dates True ?fz)
     = sheet_summary no_dates True (''short'', short_sheet)
       @ sheet_summary no_dates True (''good'', sheet1)"
    using t1[THEN conjunct1] by simp
  have 3: "build_report (Some ''NaT'') no_dates ?st = build_report (Some ''NaT'') no_dates (filter (parses no_dates) ?st)"
    using t2[THEN conjunct2, THEN conjunct2, rule_format, OF r] by simp
  from 1 2 3 show ?thesis by (iprover intro: conjI)
qed

section \<open>The attendance column of a block\<close>







section \<open>The rollup tables\<close>

lemma map_filter_dropna:
  assumes "\<forall>x\<in>set xs. key x \<noteq> None \<longrightarrow> Q x"
  shows "List.map_filter key (filter Q xs) = List.map_filter key xs"
  using assms by (induction xs) (auto simp: List.map_filter_def)

lemma filter_key_dropna:
  assumes "\<forall>x\<in>set xs. key x \<noteq> None \<longrightarrow> Q x"
  shows "filter (\<lambda>x. key x = Some k) (filter Q xs) = filter (\<lambda>x. key x = Some k) xs"
  using assms by (induction xs) auto

lemma groupby_size_dropna:
  assumes "\<forall>x\<in>set xs. key x \<noteq> None \<longrightarrow> Q x"
  shows "groupby_size key (filter Q xs) = groupby_size key xs"
  using map_filter_dropna[of xs key Q, OF assms] filter_key_dropna[of xs key Q, OF assms]
  by (simp add: groupby_size_def group_keys_def)

lemma miss_filter: "miss (filter Q rows) = filter Q (miss rows)"
  by (auto simp: miss_def intro: filter_cong)

lemma daily_ok_dropna:
  assumes "\<forall>x\<in>set rows. row_day_key x \<noteq> None \<longrightarrow> Q x"
  shows "daily_ok (filter Q rows) = daily_ok rows"
proof -
  let ?m = "filter (\<lambda>x. r_meal (fst x) \<in> set [LB, LL, LP]) rows"
  have c: "filter (\<lambda>x. r_meal (fst x) \<in> set [LB, LL, LP]) (filter Q rows) = filter Q ?m"
    by (auto intro: filter_cong)
  have a: "\<forall>x\<in>set ?m. row_day_key x \<noteq> None \<longrightarrow> Q x" using assms by simp
  show ?thesis
    unfolding daily_ok_def Let_def c
    using map_filter_dropna[of ?m row_day_key Q, OF a] filter_key_dropna[of ?m row_day_key Q, OF a]
    by (simp add: group_keys_def)
qed

lemma add_week_month_filter:
  "add_week_month nt td (filter (parseable td) recs)
     = filter (\<lambda>x. fst (snd x) \<noteq> None) (add_week_month nt td recs)"
  by (simp add: add_week_month_def filter_map comp_def parseable_def[abs_def] del: not_None_eq)

lemma row_day_key_dated: "row_day_key x \<noteq> None \<Longrightarrow> fst (snd x) \<noteq> None"
  by (cases x) (auto simp: row_day_key_def split: option.splits)

lemma daily_ok_parseable:
  "daily_ok (add_week_month nt td (filter (parseable td) recs)) = daily_ok (add_week_month nt td recs)"
  unfolding add_week_month_filter
  by (rule daily_ok_dropna) (use row_day_key_dated in blast)

lemma month_missing:
  assumes "x \<in> set (add_week_month None td recs)" "snd (snd x) \<noteq> None"
  shows "fst (snd x) \<noteq> None"
  using assms by (auto simp: add_week_month_def month_text_def split: option.splits)

lemma dash_month_empty: "dash_month [] = []" "dash_month_week [] = []"
  by (simp_all add: dash_month_def dash_month_week_def merge_outer_def groupby_size_def
      groupby_mean_def daily_ok_def miss_def group_keys_def List.map_filter_def)

lemma assemble_tables:
  "Dashboard_Month (assemble nt td rs) = dash_month (add_week_month nt td rs)"
  "Dashboard_Month_Week (assemble nt td rs) = dash_month_week (add_week_month nt td rs)"
  "Summary_All (assemble nt td rs) = add_week_month nt td rs"
  by (simp_all add: assemble_def Let_def dash_month_empty add_week_month_def)

text \<open>
  Where a missing month stays missing, the two dashboards are those of the report built
  without the records of an unparsable week; whatever the text of a missing month, these
  records are in the flat table and take no part in the day groups of the percentage.
\<close>

lemma rollup_without_unparsable_weeks:
  "Dashboard_Month (assemble None td recs)
     = Dashboard_Month (assemble None td (filter (parseable td) recs))"
  "Dashboard_Month_Week (assemble None td recs)
     = Dashboard_Month_Week (assemble None td (filter (parseable td) recs))"
  "map fst (Summary_All (assemble nt td recs)) = recs"
  "daily_ok (add_week_month nt td recs)
     = daily_ok (add_week_month nt td (filter (parseable td) recs))"
proof -
  let ?rows = "add_week_month None td recs"
  let ?Q = "\<lambda>x::summary_row. fst (snd x) \<noteq> None"
  have m: "\<forall>x\<in>set (miss ?rows). row_campus_month x \<noteq> None \<longrightarrow> ?Q x"
    using month_missing[of _ td recs] by (auto simp: miss_def row_campus_month_def simp del: not_None_eq)
  have w: "\<forall>x\<in>set (miss ?rows). row_campus_month_week x \<noteq> None \<longrightarrow> ?Q x"
    using month_missing[of _ td recs] by (auto simp: miss_def row_campus_month_week_def simp del: not_None_eq)
  have d: "daily_ok (filter ?Q ?rows) = daily_ok ?rows"
    using daily_ok_parseable[of None td recs] by (simp only: add_week_month_filter)
  show "Dashboard_Month (assemble None td recs)
     = Dashboard_Month (assemble None td (filter (parseable td) recs))"
    unfolding assemble_tables add_week_month_filter dash_month_def miss_filter d
    using groupby_size_dropna[of "miss ?rows" row_campus_month ?Q, OF m] by (simp only:)
  show "Dashboard_Month_Week (assemble None td recs)
     = Dashboard_Month_Week (assemble None td (filter (parseable td) recs))"
    unfolding assemble_tables add_week_month_filter dash_month_week_def miss_filter d
    using groupby_size_dropna[of "miss ?rows" row_campus_month_week ?Q, OF w] by (simp only:)
  show "map fst (Summary_All (assemble nt td recs)) = recs"
    by (simp add: assemble_tables add_week_month_def comp_def)
  show "daily_ok (add_week_month nt td recs)
     = daily_ok (add_week_month nt td (filter (parseable td) recs))"
    by (simp only: daily_ok_parseable)
qed

text \<open>
  C2. The specification: a record whose week cannot be parsed is in the flat table and in
  no bucket of \<^verbatim>\<open>Dashboard_Month\<close> or \<^verbatim>\<open>Dashboard_Month_Week\<close>. The code at a failing
  input: the workbook of the one sheet \<open>monitor_sheet_short_row\<close> has no date, so its two
  records carry the week \<^verbatim>\<open>Unknown Week\<close>, which \<^verbatim>\<open>parse_week_start\<close> turns into
  \<^verbatim>\<open>NaT\<close>; one of the records has attendance and no mark. With the text \<^verbatim>\<open>NaT\<close> that
  pandas before version 3 writes for the missing month, both dashboards have a row under
  the month \<^verbatim>\<open>NaT\<close> that counts this record. Where the missing month stays missing,
  both dashboards are empty, as the specification has it.
\<close>

theorem unparsable_week_rollup_failing_input:
  "parse_week_start no_dates ''Unknown Week'' = None
   \<and> map_sum id (map (r_week \<circ> fst) \<circ> Summary_All)
        (build_report (Some ''NaT'') no_dates [(''week 1'', monitor_sheet_short_row)])
       = Inr [''Unknown Week'', ''Unknown Week'']
   \<and> map_sum id Dashboard_Month
        (build_report (Some ''NaT'') no_dates [(''week 1'', monitor_sheet_short_row)])
       = Inr [((''Unknown Campus'', ''NaT''), 1, 0, 0)]
   \<and> map_sum id Dashboard_Month_Week
        (build_report (Some ''NaT'') no_dates [(''week 1'', monitor_sheet_short_row)])
       = Inr [((''Unknown Campus'', ''NaT'', ''Unknown Week''), 1, 0, 0)]
   \<and> map_sum id Dashboard_Month
        (build_report None no_dates [(''week 1'', monitor_sheet_short_row)])
       = Inr []
   \<and> map_sum id Dashboard_Month_Week
        (build_report None no_dates [(''week 1'', monitor_sheet_short_row)])
       = Inr []"
  by code_simp

end
